theory Spec2Isabelle
  imports Complex_Main "HOL-Library.Sublist"
begin

section \<open>Strings\<close>

text \<open>
  A JavaScript string is a sequence of code units and \<open>.length\<close> counts them. The model
  uses \<^typ>\<open>string\<close>, a list of 8-bit units, read as the code units below 256; the
  list's length is the string's \<open>.length\<close>. The class \<open>\s\<close> of a regular expression
  and the characters removed by \<open>trim()\<close> are the same set (WhiteSpace and
  LineTerminator); below 256 these are TAB, LF, VT, FF, CR, SPACE and NBSP.
\<close>

definition isWhiteSpace :: "char \<Rightarrow> bool" where
  "isWhiteSpace c =
     (c \<in> set [CHR 0x09, CHR 0x0A, CHR 0x0B, CHR 0x0C, CHR 0x0D, CHR 0x20, CHR 0xA0])"

abbreviation LF :: char where
  "LF \<equiv> CHR 0x0A"

text \<open>\<open>s.trim()\<close>\<close>

definition trim :: "string \<Rightarrow> string" where
  "trim s = rev (dropWhile isWhiteSpace (rev (dropWhile isWhiteSpace s)))"

text \<open>
  \<open>s.split(/\s+/)\<close>: the pieces between the maximal runs of whitespace. The empty
  string gives one empty piece; leading or trailing whitespace gives an empty first or
  last piece.
\<close>

function split_ws :: "string \<Rightarrow> string list" where
  "split_ws s =
     (case dropWhile (\<lambda>c. \<not> isWhiteSpace c) s of
        [] \<Rightarrow> [s]
      | _ # rest \<Rightarrow>
          takeWhile (\<lambda>c. \<not> isWhiteSpace c) s # split_ws (dropWhile isWhiteSpace rest))"
  by pat_completeness auto
termination
proof (relation "measure length", goal_cases)
  case 1
  show ?case by simp
next
  case (2 s x rest)
  have "length (dropWhile isWhiteSpace rest) \<le> length rest"
    by (rule length_dropWhile_le)
  moreover have "length (x # rest) \<le> length s"
    using 2 length_dropWhile_le [of "\<lambda>c. \<not> isWhiteSpace c" s] by simp
  ultimately show ?case by simp
qed

declare split_ws.simps [simp del]

text \<open>\<open>xs.join(sep)\<close> on a list of strings.\<close>

fun join :: "string \<Rightarrow> string list \<Rightarrow> string" where
  "join sep [] = []"
| "join sep [t] = t"
| "join sep (t # u # ts) = t @ sep @ join sep (u # ts)"

text \<open>\<open>s.replace(/\s+/g, ' ')\<close>: every maximal run of whitespace becomes one space.\<close>

function replace_ws_runs :: "string \<Rightarrow> string" where
  "replace_ws_runs [] = []"
| "replace_ws_runs (c # cs) =
     (if isWhiteSpace c then CHR '' '' # replace_ws_runs (dropWhile isWhiteSpace cs)
      else c # replace_ws_runs cs)"
  by pat_completeness auto
termination
  by (relation "measure length") (auto simp: length_dropWhile_le less_Suc_eq_le)

text \<open>
  \<open>s.replace(/\n{3,}/g, '\n\n')\<close>: every maximal run of three or more line feeds
  becomes two line feeds; shorter runs stay.
\<close>

function replace_newline_runs :: "string \<Rightarrow> string" where
  "replace_newline_runs [] = []"
| "replace_newline_runs (c # cs) =
     (if c = LF then
        (let run = takeWhile (\<lambda>d. d = LF) (c # cs);
             rest = dropWhile (\<lambda>d. d = LF) cs
         in (if 3 \<le> length run then [LF, LF] else run) @ replace_newline_runs rest)
      else c # replace_newline_runs cs)"
  by pat_completeness auto
termination
  by (relation "measure length") (auto simp: length_dropWhile_le less_Suc_eq_le)

text \<open>The words of a string: its maximal runs of non-whitespace characters.\<close>

definition wordsOf :: "string \<Rightarrow> string list" where
  "wordsOf s = filter (\<lambda>t. t \<noteq> []) (split_ws s)"

section \<open>JavaScript values and errors\<close>

text \<open>
  The values that flow through the handler are JSON-like. Numbers carry their
  mathematical value (IEEE rounding is not modelled). An object is the list of its own
  properties; a lookup takes the first entry of a key, and setting a property replaces
  its entry or adds one at the end. The order of the list plays no role below.
\<close>

datatype jsval =
    JUndefined
  | JNull
  | JBool bool
  | JNum rat
  | JStr string
  | JArr "jsval list"
  | JObj "(string \<times> jsval) list"

text \<open>
  A thrown value: an \<open>Error\<close> instance (of any subclass) with its message, or a value
  that is not an \<open>Error\<close>.
\<close>

datatype js_error = Error string | NonError

text \<open>ToBoolean, as used by \<open>!x\<close> and \<open>x || y\<close>.\<close>

fun truthy :: "jsval \<Rightarrow> bool" where
  "truthy JUndefined = False"
| "truthy JNull = False"
| "truthy (JBool b) = b"
| "truthy (JNum n) = (n \<noteq> 0)"
| "truthy (JStr s) = (s \<noteq> [])"
| "truthy (JArr xs) = True"
| "truthy (JObj kvs) = True"

definition js_or :: "jsval \<Rightarrow> jsval \<Rightarrow> jsval" where
  "js_or a b = (if truthy a then a else b)"

definition obj_get :: "(string \<times> jsval) list \<Rightarrow> string \<Rightarrow> jsval" where
  "obj_get kvs k = (case map_of kvs k of Some v \<Rightarrow> v | None \<Rightarrow> JUndefined)"

fun obj_set :: "(string \<times> jsval) list \<Rightarrow> string \<Rightarrow> jsval \<Rightarrow> (string \<times> jsval) list" where
  "obj_set [] k v = [(k, v)]"
| "obj_set ((k', v') # kvs) k v =
     (if k' = k then (k, v) # kvs else (k', v') # obj_set kvs k v)"

text \<open>
  The decimal digits of a non-negative integer: what a template literal produces for a
  small integer such as an HTTP status or an array index.
\<close>

definition digitChar :: "nat \<Rightarrow> char" where
  "digitChar d = ''0123456789'' ! d"

function decimal :: "nat \<Rightarrow> string" where
  "decimal n = (if n < 10 then [digitChar n] else decimal (n div 10) @ [digitChar (n mod 10)])"
  by pat_completeness auto
termination
  by (relation "measure id") auto

declare decimal.simps [simp del]

text \<open>
  \<open>v.name\<close> for the property names the source reads (\<open>content\<close>, \<open>text\<close>,
  \<open>choices\<close>, \<open>message\<close>, \<open>candidates\<close>, \<open>parts\<close>, \<open>summary\<close>, \<open>sentiment\<close>,
  \<open>keyThemes\<close>, \<open>wordCount\<close>), none of which is inherited from a prototype:
  reading a property of \<open>undefined\<close> or \<open>null\<close> throws a TypeError (the message is
  the one Chrome gives), an object gives its own property, every other value gives
  \<open>undefined\<close>.
\<close>

definition cannotRead :: "string \<Rightarrow> string \<Rightarrow> js_error" where
  "cannotRead what k =
     Error (''Cannot read properties of '' @ what @ '' (reading '' @ [CHR 0x27] @ k @ [CHR 0x27] @ '')'')"

fun getProp :: "jsval \<Rightarrow> string \<Rightarrow> js_error + jsval" where
  "getProp JUndefined k = Inl (cannotRead ''undefined'' k)"
| "getProp JNull k = Inl (cannotRead ''null'' k)"
| "getProp (JObj kvs) k = Inr (obj_get kvs k)"
| "getProp v k = Inr JUndefined"

text \<open>\<open>v[0]\<close>: the first element of an array, the first character of a string.\<close>

fun getIndex0 :: "jsval \<Rightarrow> js_error + jsval" where
  "getIndex0 JUndefined = Inl (cannotRead ''undefined'' ''0'')"
| "getIndex0 JNull = Inl (cannotRead ''null'' ''0'')"
| "getIndex0 (JObj kvs) = Inr (obj_get kvs ''0'')"
| "getIndex0 (JArr []) = Inr JUndefined"
| "getIndex0 (JArr (x # xs)) = Inr x"
| "getIndex0 (JStr []) = Inr JUndefined"
| "getIndex0 (JStr (c # cs)) = Inr (JStr [c])"
| "getIndex0 v = Inr JUndefined"

text \<open>
  \<open>{...v}\<close>: the own enumerable properties of a value. An array or a string spreads
  into its indexed elements, any other primitive into nothing.
\<close>

fun spread :: "jsval \<Rightarrow> (string \<times> jsval) list" where
  "spread (JObj kvs) = kvs"
| "spread (JArr xs) = zip (map decimal [0..<length xs]) xs"
| "spread (JStr s) = zip (map decimal [0..<length s]) (map (\<lambda>c. JStr [c]) s)"
| "spread v = []"

section \<open>Documents\<close>

text \<open>
  The element tree of an HTML document. Tag and attribute names are in lower case, as
  the HTML parser leaves them; class names, identifiers and attribute values are
  compared as they are written (a document in standards mode).
\<close>

datatype node =
    Text string
  | Comment string
  | Element string "(string \<times> string) list" "node list"

text \<open>
  The selectors of the source are lists of simple selectors separated by commas:
  a type selector, \<open>.class\<close>, \<open>#id\<close>, \<open>[attr="value"]\<close> and \<open>[attr*="value"]\<close>.
\<close>

datatype simple_selector =
    Tag string
  | Class string
  | Id string
  | AttrEq string string
  | AttrContains string string

type_synonym selector = "simple_selector list"

fun has_infix :: "string \<Rightarrow> string \<Rightarrow> bool" where
  "has_infix ys [] = (ys = [])"
| "has_infix ys (x # xs) = (prefix ys (x # xs) \<or> has_infix ys xs)"

text \<open>The class attribute is a set of tokens separated by ASCII whitespace.\<close>

definition isAsciiWhitespace :: "char \<Rightarrow> bool" where
  "isAsciiWhitespace c = (c \<in> set [CHR 0x09, CHR 0x0A, CHR 0x0C, CHR 0x0D, CHR 0x20])"

function classTokens :: "string \<Rightarrow> string list" where
  "classTokens s =
     (case dropWhile isAsciiWhitespace s of
        [] \<Rightarrow> []
      | c # cs \<Rightarrow>
          takeWhile (\<lambda>d. \<not> isAsciiWhitespace d) (c # cs)
            # classTokens (dropWhile (\<lambda>d. \<not> isAsciiWhitespace d) cs))"
  by pat_completeness auto
termination
proof (relation "measure length", goal_cases)
  case 1
  show ?case by simp
next
  case (2 s c cs)
  have "length (dropWhile (\<lambda>d. \<not> isAsciiWhitespace d) cs) \<le> length cs"
    by (rule length_dropWhile_le)
  moreover have "length (c # cs) \<le> length s"
    using 2 length_dropWhile_le [of isAsciiWhitespace s] by simp
  ultimately show ?case by simp
qed

declare classTokens.simps [simp del]

fun matchesSimple :: "simple_selector \<Rightarrow> node \<Rightarrow> bool" where
  "matchesSimple (Tag t) (Element tag attrs kids) = (tag = t)"
| "matchesSimple (Class c) (Element tag attrs kids) =
     (case map_of attrs ''class'' of None \<Rightarrow> False | Some v \<Rightarrow> c \<in> set (classTokens v))"
| "matchesSimple (Id i) (Element tag attrs kids) = (map_of attrs ''id'' = Some i)"
| "matchesSimple (AttrEq a v) (Element tag attrs kids) = (map_of attrs a = Some v)"
| "matchesSimple (AttrContains a v) (Element tag attrs kids) =
     (case map_of attrs a of None \<Rightarrow> False | Some w \<Rightarrow> v \<noteq> [] \<and> has_infix v w)"
| "matchesSimple sel (Text s) = False"
| "matchesSimple sel (Comment s) = False"

definition matches :: "selector \<Rightarrow> node \<Rightarrow> bool" where
  "matches sel n = (\<exists>s\<in>set sel. matchesSimple s n)"

text \<open>The elements of a tree in document order, the root included.\<close>

fun elements :: "node \<Rightarrow> node list" where
  "elements (Text s) = []"
| "elements (Comment s) = []"
| "elements (Element tag attrs kids) = Element tag attrs kids # concat (map elements kids)"

text \<open>
  \<open>document.querySelector(selector)\<close> as the extractor sees it: the first matching
  element, \<open>null\<close>, or an exception of the host. \<open>documentOf html\<close> is the document
  with root element \<open>html\<close>, whose queries never throw.
\<close>

type_synonym document = "selector \<Rightarrow> js_error + node option"

definition documentOf :: "node \<Rightarrow> document" where
  "documentOf html sel = Inr (find (matches sel) (elements html))"

text \<open>\<open>node.textContent\<close>: the text of the descendants, in order.\<close>

fun textContent :: "node \<Rightarrow> string" where
  "textContent (Text s) = s"
| "textContent (Comment s) = []"
| "textContent (Element tag attrs kids) = concat (map textContent kids)"

section \<open>Content extractor (\<open>extractPageContent\<close>)\<close>

definition contentSources :: "selector list" where
  "contentSources =
     [[Tag ''main''], [AttrEq ''role'' ''main''], [Tag ''article''], [Class ''content''],
      [Id ''content''], [Class ''post-content''], [Class ''entry-content''],
      [Class ''article-content''], [Tag ''body'']]"

definition noise :: selector where
  "noise =
     [Tag ''script'', Tag ''style'', Tag ''nav'', Tag ''header'', Tag ''footer'', Tag ''aside'',
      Class ''advertisement'', Class ''ads'', Class ''sidebar'', Class ''menu'',
      Class ''navigation'', AttrContains ''class'' ''comment'', AttrContains ''id'' ''comment'']"

text \<open>
  \<open>clone.querySelectorAll(noise).forEach(el => el.remove())\<close>: every descendant that
  matches a noise selector goes, with its subtree. The element itself stays, whatever
  it matches. The clone is the same tree.
\<close>

fun removeNoise :: "node \<Rightarrow> node" where
  "removeNoise (Text s) = Text s"
| "removeNoise (Comment s) = Comment s"
| "removeNoise (Element tag attrs kids) =
     Element tag attrs (map removeNoise (filter (\<lambda>k. \<not> matches noise k) kids))"

text \<open>
  The body of the inner \<open>try\<close> for one selector: the text of the candidate, if the query
  finds an element. An exception of the query is the \<open>Inl\<close> result.
\<close>

definition candidateText :: "document \<Rightarrow> selector \<Rightarrow> js_error + string option" where
  "candidateText doc sel =
     (case doc sel of
        Inl e \<Rightarrow> Inl e
      | Inr None \<Rightarrow> Inr None
      | Inr (Some element) \<Rightarrow> Inr (Some (textContent (removeNoise element))))"

text \<open>
  The loop over the selectors, with \<open>bestContent\<close> as the accumulator. The second
  component records the selectors that were queried. The inner \<open>catch\<close> logs and goes
  on with the next selector; the \<open>break\<close> sits inside \<open>if (element)\<close>.
\<close>

fun extractLoop :: "document \<Rightarrow> selector list \<Rightarrow> string \<Rightarrow> string \<times> selector list" where
  "extractLoop doc [] bestContent = (bestContent, [])"
| "extractLoop doc (sel # rest) bestContent =
     (case candidateText doc sel of
        Inl e \<Rightarrow>
          (let (b, tried) = extractLoop doc rest bestContent in (b, sel # tried))
      | Inr None \<Rightarrow>
          (let (b, tried) = extractLoop doc rest bestContent in (b, sel # tried))
      | Inr (Some text) \<Rightarrow>
          (let best' = (if length bestContent < length (trim text) then trim text
                        else bestContent)
           in if 500 < length best' then (best', [sel])
              else (let (b, tried) = extractLoop doc rest best' in (b, sel # tried))))"

definition cleanContent :: "string \<Rightarrow> string" where
  "cleanContent bestContent = trim (replace_newline_runs (replace_ws_runs bestContent))"

text \<open>
  The outer \<open>catch\<close> of the source is not reached: outside the inner \<open>try\<close> only
  string methods run on a string (console output is left out of the model).
\<close>

definition extractPageContent :: "document \<Rightarrow> string" where
  "extractPageContent doc = cleanContent (fst (extractLoop doc contentSources []))"

text \<open>
  For stating what the loop computes: a selector yields text when its query finds an
  element whose stripped text is not blank; the candidate texts of a list of selectors
  are the trimmed texts of those that find an element, in order.
\<close>

definition yieldsText :: "document \<Rightarrow> selector \<Rightarrow> bool" where
  "yieldsText doc sel =
     (case candidateText doc sel of Inr (Some t) \<Rightarrow> trim t \<noteq> [] | _ \<Rightarrow> False)"

definition candidateTexts :: "document \<Rightarrow> selector list \<Rightarrow> string list" where
  "candidateTexts doc sels =
     concat (map (\<lambda>sel. case candidateText doc sel of Inr (Some t) \<Rightarrow> [trim t] | _ \<Rightarrow> []) sels)"

text \<open>
  A child of a body that holds only navigation and footer: such an element, blank text
  between the elements, or a comment.
\<close>

fun navOrFooter :: "node \<Rightarrow> bool" where
  "navOrFooter (Element tag attrs kids) = (tag = ''nav'' \<or> tag = ''footer'')"
| "navOrFooter (Text s) = (\<forall>c\<in>set s. isWhiteSpace c)"
| "navOrFooter (Comment s) = True"

section \<open>Settings (\<open>types.ts\<close>)\<close>

datatype LLMProvider = anthropic | openai | google | xai

record ProviderSettings =
  apiKey :: string
  model :: string
  apiKeyValid :: "bool option"
  lastValidated :: "string option"

text \<open>\<open>currentProvider\<close> is one of the four identifiers or the empty string (\<open>None\<close>).\<close>

record LLMSettings =
  currentProvider :: "LLMProvider option"
  providers :: "LLMProvider \<Rightarrow> ProviderSettings"
  temperature :: "rat option"
  maxTokens :: "nat option"

text \<open>
  What the storage may hold under \<open>llmSettings\<close>: the current structure, or the old
  structure \<open>{provider, apiKey, model}\<close>, which has no \<open>providers\<close> object and no
  \<open>currentProvider\<close>. The popup rewrites an old value into the current structure only
  when its three fields are all truthy; an old value with an empty key stays as it is.
\<close>

datatype stored_settings =
    Current LLMSettings
  | Legacy string string string

fun hasProvidersMap :: "stored_settings \<Rightarrow> bool" where
  "hasProvidersMap (Current settings) = True"
| "hasProvidersMap (Legacy provider key mdl) = False"

section \<open>The host: tabs, storage, network, JSON\<close>

text \<open>
  \<open>fetch(input, init)\<close> with \<open>init = {method, headers, body}\<close>; \<open>requestMethod\<close>
  is the field \<open>method\<close> and \<open>body\<close> is the value handed to \<open>JSON.stringify\<close>.
\<close>

record fetch_call =
  input :: string
  requestMethod :: string
  headers :: "(string \<times> string) list"
  body :: jsval

text \<open>
  A \<open>Response\<close>: \<open>json\<close> is what \<open>await response.json()\<close> gives, the parsed body
  or a rejection. \<open>response.ok\<close> is true for the statuses 200 to 299.
\<close>

record http_response =
  status :: nat
  statusText :: string
  json :: "js_error + jsval"

definition ok :: "http_response \<Rightarrow> bool" where
  "ok r = (200 \<le> status r \<and> status r \<le> 299)"

text \<open>
  What the handler asks of its environment. \<open>executeScript\<close> gives the document of the
  tab in which the injected function runs, or rejects. \<open>storage_get\<close> is
  \<open>chrome.storage.local.get(['llmSettings'])\<close>, with \<open>None\<close> for an absent entry
  and the stored value otherwise.
  \<open>JSON_parse\<close> is \<open>JSON.parse\<close>, \<open>None\<close> when it throws. The two clock readings,
  the identifier and the time stamp are the values of \<open>Date.now()\<close>,
  \<open>crypto.randomUUID()\<close> and \<open>new Date().toISOString()\<close>.
\<close>

record platform =
  executeScript :: "nat \<Rightarrow> js_error + document"
  storage_get :: "js_error + stored_settings option"
  fetch :: "fetch_call \<Rightarrow> js_error + http_response"
  JSON_parse :: "jsval \<Rightarrow> jsval option"
  startTime :: int
  endTime :: int
  randomUUID :: string
  toISOString :: string

record summarize_request =
  url :: string
  title :: string
  tabId :: nat

section \<open>Prompt builder (\<open>generateSummaryViaFetch\<close>, the lines before the dispatch)\<close>

text \<open>
  \<open>const words = content.split(/\s+/)\<close>,
  \<open>const truncatedContent = words.slice(0, 3000).join(' ')\<close>,
  \<open>const wordCount = words.length\<close>.
\<close>

definition truncatedContent :: "string \<Rightarrow> string" where
  "truncatedContent content = join '' '' (take 3000 (split_ws content))"

definition wordCount :: "string \<Rightarrow> nat" where
  "wordCount content = length (split_ws content)"

definition dq :: "string \<Rightarrow> string" where
  "dq s = [CHR 0x22] @ s @ [CHR 0x22]"

definition promptHead :: string where
  "promptHead =
     ''Please analyze the following web page content and provide a comprehensive summary.''
     @ [LF, LF] @ ''Title: ''"

definition promptMid :: string where
  "promptMid = [LF, LF] @ ''Content:'' @ [LF]"

definition promptTail :: string where
  "promptTail =
     [LF, LF] @ ''Please provide your response in the following JSON format:'' @ [LF]
     @ ''{'' @ [LF]
     @ ''  '' @ dq ''summary'' @ '': ''
     @ dq ''A clear, concise summary of the main points and key information from this page (2-3 sentences)''
     @ '','' @ [LF]
     @ ''  '' @ dq ''sentiment'' @ '': ''
     @ dq ''overall sentiment of the content (positive, negative, neutral, or mixed)''
     @ '','' @ [LF]
     @ ''  '' @ dq ''keyThemes'' @ '': ['' @ dq ''array'' @ '', '' @ dq ''of'' @ '', ''
     @ dq ''key'' @ '', '' @ dq ''themes'' @ '', '' @ dq ''or'' @ '', '' @ dq ''topics''
     @ '']'' @ [LF]
     @ ''}'' @ [LF, LF]
     @ ''Focus on the main ideas, key facts, and important takeaways. Keep the summary informative but brief.''"

definition buildPrompt :: "string \<Rightarrow> string \<Rightarrow> string" where
  "buildPrompt ttl content =
     promptHead @ ttl @ promptMid @ truncatedContent content @ promptTail"



section \<open>Provider dispatcher and response normalizer (\<open>generateSummaryViaFetch\<close>)\<close>

text \<open>
  The four branches of the source differ in the request they build, in the name that
  starts the error message and in the path from the response body to the text.
\<close>

definition userMessage :: "string \<Rightarrow> jsval" where
  "userMessage prompt = JArr [JObj [(''role'', JStr ''user''), (''content'', JStr prompt)]]"

fun buildRequest :: "LLMProvider \<Rightarrow> ProviderSettings \<Rightarrow> string \<Rightarrow> fetch_call" where
  "buildRequest anthropic cp prompt =
     \<lparr>input = ''https://api.anthropic.com/v1/messages'',
      requestMethod = ''POST'',
      headers = [(''Content-Type'', ''application/json''),
                 (''X-API-Key'', apiKey cp),
                 (''anthropic-version'', ''2023-06-01''),
                 (''anthropic-dangerous-direct-browser-access'', ''true'')],
      body = JObj [(''model'', JStr (model cp)), (''max_tokens'', JNum 500),
                   (''temperature'', JNum (7 / 10)), (''messages'', userMessage prompt)]\<rparr>"
| "buildRequest openai cp prompt =
     \<lparr>input = ''https://api.openai.com/v1/chat/completions'',
      requestMethod = ''POST'',
      headers = [(''Content-Type'', ''application/json''),
                 (''Authorization'', ''Bearer '' @ apiKey cp)],
      body = JObj [(''model'', JStr (model cp)), (''messages'', userMessage prompt),
                   (''max_tokens'', JNum 500), (''temperature'', JNum (7 / 10))]\<rparr>"
| "buildRequest google cp prompt =
     \<lparr>input = ''https://generativelanguage.googleapis.com/v1beta/models/'' @ model cp
               @ '':generateContent?key='' @ apiKey cp,
      requestMethod = ''POST'',
      headers = [(''Content-Type'', ''application/json'')],
      body = JObj [(''contents'', JArr [JObj [(''parts'', JArr [JObj [(''text'', JStr prompt)]])]]),
                   (''generationConfig'',
                      JObj [(''temperature'', JNum (7 / 10)), (''maxOutputTokens'', JNum 500)])]\<rparr>"
| "buildRequest xai cp prompt =
     \<lparr>input = ''https://api.x.ai/v1/chat/completions'',
      requestMethod = ''POST'',
      headers = [(''Content-Type'', ''application/json''),
                 (''Authorization'', ''Bearer '' @ apiKey cp)],
      body = JObj [(''model'', JStr (model cp)), (''messages'', userMessage prompt),
                   (''max_tokens'', JNum 500), (''temperature'', JNum (7 / 10))]\<rparr>"

fun providerName :: "LLMProvider \<Rightarrow> string" where
  "providerName anthropic = ''Anthropic''"
| "providerName openai = ''OpenAI''"
| "providerName google = ''Google''"
| "providerName xai = ''xAI''"

text \<open>\<open>throw new Error(`<Name> API error: ${apiResponse.status} ${apiResponse.statusText}`)\<close>\<close>

definition apiError :: "LLMProvider \<Rightarrow> http_response \<Rightarrow> js_error" where
  "apiError p r =
     Error (providerName p @ '' API error: '' @ decimal (status r) @ '' '' @ statusText r)"

definition bindE :: "js_error + 'a \<Rightarrow> ('a \<Rightarrow> js_error + 'b) \<Rightarrow> js_error + 'b" where
  "bindE m f = (case m of Inl e \<Rightarrow> Inl e | Inr x \<Rightarrow> f x)"

text \<open>
  \<open>data.content[0].text\<close>, \<open>data.choices[0].message.content\<close> and
  \<open>data.candidates[0].content.parts[0].text\<close>.
\<close>

fun responseText :: "LLMProvider \<Rightarrow> jsval \<Rightarrow> js_error + jsval" where
  "responseText anthropic data =
     bindE (bindE (getProp data ''content'') getIndex0) (\<lambda>v. getProp v ''text'')"
| "responseText openai data =
     bindE (bindE (bindE (getProp data ''choices'') getIndex0) (\<lambda>v. getProp v ''message''))
       (\<lambda>v. getProp v ''content'')"
| "responseText google data =
     bindE (bindE (bindE (bindE (bindE (getProp data ''candidates'') getIndex0)
       (\<lambda>v. getProp v ''content'')) (\<lambda>v. getProp v ''parts'')) getIndex0)
       (\<lambda>v. getProp v ''text'')"
| "responseText xai data =
     bindE (bindE (bindE (getProp data ''choices'') getIndex0) (\<lambda>v. getProp v ''message''))
       (\<lambda>v. getProp v ''content'')"

text \<open>
  The inner \<open>try { JSON.parse(text) ... } catch { ... }\<close>, the same in the four
  branches: the parsed value spread into a fresh object with \<open>wordCount\<close> set last, or
  the fallback object. The returned object is given by its properties.
\<close>

definition normalizeResponse ::
  "(jsval \<Rightarrow> jsval option) \<Rightarrow> jsval \<Rightarrow> nat \<Rightarrow> (string \<times> jsval) list" where
  "normalizeResponse parse text wc =
     (case parse text of
        Some parsed \<Rightarrow> obj_set (spread parsed) ''wordCount'' (JNum (of_nat wc))
      | None \<Rightarrow>
          [(''summary'', text), (''sentiment'', JStr ''neutral''),
           (''keyThemes'', JArr []), (''wordCount'', JNum (of_nat wc))])"

text \<open>
  The dispatch up to the text of the model: the request is built and sent once; a
  rejected \<open>fetch\<close>, a response that is not \<open>ok\<close>, a body that is not JSON and a
  body of another shape each end the call with an error. The second component lists
  the calls of \<open>fetch\<close> that were made.
\<close>

definition providerDispatch ::
  "platform \<Rightarrow> string \<Rightarrow> string \<Rightarrow> LLMSettings \<Rightarrow> (js_error + jsval) \<times> fetch_call list" where
  "providerDispatch pf content ttl settings =
     (let prompt = buildPrompt ttl content in
      case currentProvider settings of
        None \<Rightarrow> (Inl (Error ''Unsupported provider''), [])
      | Some p \<Rightarrow>
          (let call = buildRequest p (providers settings p) prompt in
           case fetch pf call of
             Inl e \<Rightarrow> (Inl e, [call])
           | Inr apiResponse \<Rightarrow>
               if \<not> ok apiResponse then (Inl (apiError p apiResponse), [call])
               else (bindE (json apiResponse) (responseText p), [call])))"

text \<open>
  The result is the returned object or the thrown error, together with the calls of
  \<open>fetch\<close>. The outer \<open>catch\<close> logs and throws the error again.
\<close>

definition generateSummaryViaFetch ::
  "platform \<Rightarrow> string \<Rightarrow> string \<Rightarrow> LLMSettings
     \<Rightarrow> (js_error + (string \<times> jsval) list) \<times> fetch_call list" where
  "generateSummaryViaFetch pf content ttl settings =
     (case providerDispatch pf content ttl settings of
        (Inl e, calls) \<Rightarrow> (Inl e, calls)
      | (Inr text, calls) \<Rightarrow>
          (Inr (normalizeResponse (JSON_parse pf) text (wordCount content)), calls))"

section \<open>The message handler (\<open>handleSummarizePage\<close>)\<close>

text \<open>
  \<open>getPageContent\<close>: the result of the injected extractor if it is truthy, else
  \<open>null\<close>; a rejection of \<open>executeScript\<close> is caught and gives \<open>null\<close> too.
\<close>

definition getPageContent :: "platform \<Rightarrow> nat \<Rightarrow> string option" where
  "getPageContent pf tab =
     (case executeScript pf tab of
        Inl e \<Rightarrow> None
      | Inr doc \<Rightarrow>
          (let result = extractPageContent doc in if result \<noteq> [] then Some result else None))"

definition failure :: "string \<Rightarrow> jsval" where
  "failure msg = JObj [(''success'', JBool False), (''error'', JStr msg)]"

text \<open>\<open>error instanceof Error ? error.message : 'Failed to generate summary'\<close>\<close>

fun errorMessage :: "js_error \<Rightarrow> string" where
  "errorMessage (Error msg) = msg"
| "errorMessage NonError = ''Failed to generate summary''"

text \<open>\<open>!currentProvider?.apiKey\<close> for \<open>settings.providers[settings.currentProvider]\<close>\<close>

definition apiKeyMissing :: "LLMSettings \<Rightarrow> bool" where
  "apiKeyMissing settings =
     (case currentProvider settings of
        None \<Rightarrow> True
      | Some p \<Rightarrow> apiKey (providers settings p) = [])"

text \<open>
  The summary object that is sent on success; \<open>summaryResult\<close> is the object returned
  by \<open>generateSummaryViaFetch\<close>, given by its properties.
\<close>

definition summaryObject ::
  "platform \<Rightarrow> summarize_request \<Rightarrow> (string \<times> jsval) list \<Rightarrow> jsval" where
  "summaryObject pf request summaryResult =
     JObj [(''id'', JStr (randomUUID pf)),
           (''url'', JStr (url request)),
           (''title'', JStr (title request)),
           (''summary'', obj_get summaryResult ''summary''),
           (''sentiment'', js_or (obj_get summaryResult ''sentiment'') (JStr ''neutral'')),
           (''keyThemes'', js_or (obj_get summaryResult ''keyThemes'') (JArr [])),
           (''commentCount'', js_or (obj_get summaryResult ''wordCount'') (JNum 0)),
           (''createdAt'', JStr (toISOString pf)),
           (''processingTime'', JNum (of_int (endTime pf - startTime pf))),
           (''success'', JBool True)]"

text \<open>
  The handler: the value passed to \<open>sendResponse\<close> and the calls of \<open>fetch\<close> made on
  the way. Anything thrown inside the \<open>try\<close> is answered with its message. For a
  stored value of the old structure, \<open>settings.providers\<close> and
  \<open>settings.currentProvider\<close> are both \<open>undefined\<close>, and
  \<open>settings.providers[settings.currentProvider]\<close> throws a TypeError before the key
  is looked at.
\<close>

definition handleSummarizePage :: "platform \<Rightarrow> summarize_request \<Rightarrow> jsval \<times> fetch_call list" where
  "handleSummarizePage pf request =
     (case getPageContent pf (tabId request) of
        None \<Rightarrow> (failure ''Could not extract page content'', [])
      | Some pageContent \<Rightarrow>
          if pageContent = [] then (failure ''Could not extract page content'', [])
          else
            (case storage_get pf of
               Inl e \<Rightarrow> (failure (errorMessage e), [])
             | Inr None \<Rightarrow> (failure ''LLM settings not configured'', [])
             | Inr (Some (Legacy provider key mdl)) \<Rightarrow>
                 (failure (errorMessage (cannotRead ''undefined'' ''undefined'')), [])
             | Inr (Some (Current settings)) \<Rightarrow>
                 if apiKeyMissing settings then (failure ''API key not configured'', [])
                 else
                   (case generateSummaryViaFetch pf pageContent (title request) settings of
                      (Inl e, calls) \<Rightarrow> (failure (errorMessage e), calls)
                    | (Inr summaryResult, calls) \<Rightarrow>
                        (summaryObject pf request summaryResult, calls))))"

text \<open>Reading a property of the object that was sent.\<close>

definition field :: "jsval \<Rightarrow> string \<Rightarrow> jsval" where
  "field v k = (case v of JObj kvs \<Rightarrow> obj_get kvs k | _ \<Rightarrow> JUndefined)"

section \<open>Examples\<close>

text \<open>
  A page with an article, settings with a key for the first provider, and a host
  whose network answers with the given response and whose \<open>JSON.parse\<close> gives the
  given result for the given text and throws for any other argument.
\<close>

definition examplePage :: node where
  "examplePage =
     Element ''html'' []
       [Element ''head'' [] [Element ''title'' [] [Text ''News'']],
        Element ''body'' []
          [Element ''nav'' [] [Text ''Home''],
           Element ''article'' [] [Text '' Rain  is expected. '']]]"

definition exampleSettings :: "string \<Rightarrow> LLMSettings" where
  "exampleSettings key =
     \<lparr>currentProvider = Some anthropic,
      providers = (\<lambda>p. \<lparr>apiKey = (if p = anthropic then key else []),
                          model = ''claude'', apiKeyValid = None, lastValidated = None\<rparr>),
      temperature = None, maxTokens = None\<rparr>"

definition exampleRequest :: summarize_request where
  "exampleRequest = \<lparr>url = ''https://example.org/news'', title = ''News'', tabId = 7\<rparr>"

definition anthropicBody :: "string \<Rightarrow> jsval" where
  "anthropicBody t = JObj [(''content'', JArr [JObj [(''type'', JStr ''text''), (''text'', JStr t)]])]"

definition exampleHost ::
  "js_error + document \<Rightarrow> string \<Rightarrow> http_response \<Rightarrow> string \<Rightarrow> jsval option \<Rightarrow> platform" where
  "exampleHost page key response known parsed =
     \<lparr>executeScript = (\<lambda>tab. page),
      storage_get = Inr (Some (Current (exampleSettings key))),
      fetch = (\<lambda>call. Inr response),
      JSON_parse = (\<lambda>v. if v = JStr known then parsed else None),
      startTime = 1000, endTime = 1250,
      randomUUID = ''00000000-0000-4000-8000-000000000000'',
      toISOString = ''2024-01-01T00:00:00.000Z''\<rparr>"

definition okResponse :: "string \<Rightarrow> http_response" where
  "okResponse t = \<lparr>status = 200, statusText = ''OK'', json = Inr (anthropicBody t)\<rparr>"

text \<open>
  A document whose queries all throw, a page with navigation and footer only, and a
  page whose main region holds 501 characters.
\<close>

definition throwingDocument :: document where
  "throwingDocument sel = Inl (Error ''The operation is insecure.'')"

definition navFooterPage :: node where
  "navFooterPage =
     Element ''html'' []
       [Element ''head'' [] [Element ''title'' [] [Text ''Shell'']],
        Element ''body'' []
          [Element ''nav'' [] [Element ''a'' [(''href'', ''/'')] [Text ''Home'']],
           Text [LF],
           Element ''footer'' [] [Text ''All rights reserved'']]]"

definition longPage :: node where
  "longPage =
     Element ''html'' []
       [Element ''body'' []
          [Element ''main'' [] [Element ''p'' [] [Text (replicate 501 (CHR ''a''))]],
           Element ''div'' [(''class'', ''content'')] [Text ''more'']]]"

text \<open>
  Texts a model may answer with: an object whose sentiment and themes are falsy, a
  complete object, an object with the summary only, and plain prose.
\<close>

definition falsyText :: string where
  "falsyText = ''{'' @ dq ''summary'' @ '':'' @ dq ''Rain.'' @ '','' @ dq ''sentiment'' @ '':''
     @ dq [] @ '','' @ dq ''keyThemes'' @ '':null}''"

definition falsyFields :: "(string \<times> jsval) list" where
  "falsyFields = [(''summary'', JStr ''Rain.''), (''sentiment'', JStr []), (''keyThemes'', JNull)]"

definition completeText :: string where
  "completeText = ''{'' @ dq ''summary'' @ '':'' @ dq ''Rain.'' @ '','' @ dq ''sentiment'' @ '':''
     @ dq ''negative'' @ '','' @ dq ''keyThemes'' @ '':['' @ dq ''weather'' @ '']}''"

definition completeFields :: "(string \<times> jsval) list" where
  "completeFields =
     [(''summary'', JStr ''Rain.''), (''sentiment'', JStr ''negative''),
      (''keyThemes'', JArr [JStr ''weather''])]"

definition partialText :: string where
  "partialText = ''{'' @ dq ''summary'' @ '':'' @ dq ''Rain.'' @ ''}''"

definition partialFields :: "(string \<times> jsval) list" where
  "partialFields = [(''summary'', JStr ''Rain.'')]"

definition plainText :: string where
  "plainText = ''Rain is expected tomorrow.''"

definition answeringHost :: "string \<Rightarrow> jsval option \<Rightarrow> platform" where
  "answeringHost t parsed =
     exampleHost (Inr (documentOf examplePage)) ''sk-test'' (okResponse t) t parsed"

text \<open>
  A host whose provider answers 404, one whose tab cannot be scripted (and whose
  settings hold no key), and one whose settings hold no key.
\<close>

definition notFound :: http_response where
  "notFound = \<lparr>status = 404, statusText = ''Not Found'', json = Inl (Error ''Unexpected token'')\<rparr>"

definition failingHost :: platform where
  "failingHost = exampleHost (Inr (documentOf examplePage)) ''sk-test'' notFound [] None"

definition restrictedHost :: platform where
  "restrictedHost =
     exampleHost (Inl (Error ''Cannot access a chrome:// URL'')) [] (okResponse plainText) [] None"

definition keylessHost :: platform where
  "keylessHost = exampleHost (Inr (documentOf examplePage)) [] (okResponse plainText) [] None"

text \<open>A host whose storage still holds settings of the old structure, with an empty key.\<close>

definition legacyHost :: platform where
  "legacyHost =
     (exampleHost (Inr (documentOf examplePage)) [] (okResponse plainText) [] None)
       \<lparr>storage_get := Inr (Some (Legacy ''anthropic'' [] ''claude''))\<rparr>"

section \<open>Splitting, joining and trimming\<close>

lemma split_ws_no_ws: "split_ws s = [s]" if "\<forall>c\<in>set s. \<not> isWhiteSpace c"
proof -
  have "dropWhile (\<lambda>c. \<not> isWhiteSpace c) s = []" using that by simp
  then show ?thesis by (subst split_ws.simps) (simp only: list.case)
qed

lemma split_ws_token:
  assumes "\<forall>c\<in>set t. \<not> isWhiteSpace c" "isWhiteSpace w"
  shows "split_ws (t @ w # r) = t # split_ws (dropWhile isWhiteSpace r)"
proof -
  have d: "dropWhile (\<lambda>c. \<not> isWhiteSpace c) (t @ w # r) = w # r"
    using assms by (simp add: dropWhile_append3)
  have tk: "takeWhile (\<lambda>c. \<not> isWhiteSpace c) (t @ w # r) = t"
    using assms by (simp add: takeWhile_tail)
  show ?thesis by (subst split_ws.simps) (simp add: d tk)
qed

lemma split_ws_tokens_no_ws: "t \<in> set (split_ws s) \<Longrightarrow> c \<in> set t \<Longrightarrow> \<not> isWhiteSpace c"
proof (induction s arbitrary: t rule: split_ws.induct)
  case (1 s)
  show ?case
  proof (cases "dropWhile (\<lambda>c. \<not> isWhiteSpace c) s")
    case Nil
    then have "split_ws s = [s]" by (subst split_ws.simps) (simp only: list.case)
    moreover from Nil have "\<forall>c\<in>set s. \<not> isWhiteSpace c" by simp
    ultimately show ?thesis using 1 by auto
  next
    case (Cons x rest)
    then have eq: "split_ws s = takeWhile (\<lambda>c. \<not> isWhiteSpace c) s # split_ws (dropWhile isWhiteSpace rest)"
      by (subst split_ws.simps) simp
    show ?thesis
    proof (cases "t = takeWhile (\<lambda>c. \<not> isWhiteSpace c) s")
      case True
      then show ?thesis using 1(3) by (auto dest: set_takeWhileD)
    next
      case False
      then have "t \<in> set (split_ws (dropWhile isWhiteSpace rest))" using 1(2) eq by simp
      then show ?thesis using 1(1)[OF Cons] 1(3) by blast
    qed
  qed
qed

lemma wordsOf_dropWhile: "wordsOf (dropWhile isWhiteSpace s) = wordsOf s"
proof (cases s)
  case Nil then show ?thesis by simp
next
  case (Cons c cs)
  show ?thesis
  proof (cases "isWhiteSpace c")
    case True
    have "split_ws (c # cs) = [] # split_ws (dropWhile isWhiteSpace cs)"
      using split_ws_token[of "[]" c cs] True by simp
    then show ?thesis using True Cons by (simp add: wordsOf_def)
  next
    case False then show ?thesis using Cons by simp
  qed
qed

lemma wordsOf_join:
  "\<forall>t\<in>set ts. \<forall>c\<in>set t. \<not> isWhiteSpace c \<Longrightarrow>
   wordsOf (join '' '' ts) = filter (\<lambda>t. t \<noteq> []) ts"
proof (induction "'' ''" ts rule: join.induct)
  case 1
  then show ?case by (simp add: wordsOf_def split_ws_no_ws)
next
  case (2 t)
  then show ?case by (simp add: wordsOf_def split_ws_no_ws)
next
  case (3 t u ts)
  have sp: "isWhiteSpace (CHR '' '')" by (simp add: isWhiteSpace_def)
  have "split_ws (t @ CHR '' '' # join '' '' (u # ts)) =
      t # split_ws (dropWhile isWhiteSpace (join '' '' (u # ts)))"
    using 3(2) sp by (intro split_ws_token) auto
  then have "wordsOf (join '' '' (t # u # ts)) =
      filter (\<lambda>t. t \<noteq> []) [t] @ wordsOf (dropWhile isWhiteSpace (join '' '' (u # ts)))"
    by (simp add: wordsOf_def)
  also have "\<dots> = filter (\<lambda>t. t \<noteq> []) [t] @ filter (\<lambda>t. t \<noteq> []) (u # ts)"
    using 3 by (simp add: wordsOf_dropWhile)
  finally show ?case by simp
qed


lemma length_trim_le: "length (trim s) \<le> length (dropWhile isWhiteSpace s)"
  unfolding trim_def using length_dropWhile_le [of isWhiteSpace "rev (dropWhile isWhiteSpace s)"] by simp

lemma trim_fixed_hd: assumes "trim s = s" "s \<noteq> []" shows "\<not> isWhiteSpace (hd s)"
proof
  assume w: "isWhiteSpace (hd s)"
  obtain c cs where s: "s = c # cs" using assms(2) by (cases s) auto
  have "length (dropWhile isWhiteSpace s) \<le> length cs"
    using w s length_dropWhile_le [of isWhiteSpace cs] by simp
  then have "length (trim s) < length s" using length_trim_le [of s] s by simp
  then show False using assms(1) by simp
qed

lemma trim_fixed_last: assumes "trim s = s" "s \<noteq> []" shows "\<not> isWhiteSpace (last s)"
proof
  assume w: "isWhiteSpace (last s)"
  have d: "dropWhile isWhiteSpace s = s"
    using trim_fixed_hd [OF assms] assms(2) by (cases s) auto
  have "rev s = last s # rev (butlast s)" using assms(2) by (metis append_butlast_last_id rev.simps(2) rev_append rev_rev_ident append_Nil rev.simps(1) append_Cons)
  then have "dropWhile isWhiteSpace (rev s) = dropWhile isWhiteSpace (rev (butlast s))"
    using w by (simp only: dropWhile.simps if_True)
  then have "length (trim s) \<le> length (butlast s)"
    unfolding trim_def d using length_dropWhile_le [of isWhiteSpace "rev (butlast s)"] by simp
  moreover have "0 < length s" using assms(2) by simp
  ultimately have "length (trim s) < length s" by (simp only: length_butlast)
  then show False using assms(1) by simp
qed

lemma split_ws_nonempty_tokens:
  "s \<noteq> [] \<Longrightarrow> \<not> isWhiteSpace (hd s) \<Longrightarrow> \<not> isWhiteSpace (last s) \<Longrightarrow>
   t \<in> set (split_ws s) \<Longrightarrow> t \<noteq> []"
proof (induction s arbitrary: t rule: split_ws.induct)
  case (1 s)
  have tk: "takeWhile (\<lambda>c. \<not> isWhiteSpace c) s \<noteq> []"
    using 1(2,3) by (cases s) auto
  show ?case
  proof (cases "dropWhile (\<lambda>c. \<not> isWhiteSpace c) s")
    case Nil
    then have "split_ws s = [s]" by (subst split_ws.simps) (simp only: list.case)
    then show ?thesis using 1(2,5) by simp
  next
    case (Cons x rest)
    then have eq: "split_ws s =
        takeWhile (\<lambda>c. \<not> isWhiteSpace c) s # split_ws (dropWhile isWhiteSpace rest)"
      by (subst split_ws.simps) simp
    let ?r = "dropWhile isWhiteSpace rest"
    have s_eq: "s = takeWhile (\<lambda>c. \<not> isWhiteSpace c) s @ x # rest"
      using Cons takeWhile_dropWhile_id [of "\<lambda>c. \<not> isWhiteSpace c" s] by simp
    have rest_eq: "rest = takeWhile isWhiteSpace rest @ ?r" by simp
    have x_ws: "isWhiteSpace x" using Cons hd_dropWhile [of "\<lambda>c. \<not> isWhiteSpace c" s] by fastforce
    have r_ne: "?r \<noteq> []"
    proof
      assume e: "?r = []"
      then have "\<forall>c\<in>set rest. isWhiteSpace c" by simp
      then have "isWhiteSpace (last (x # rest))" using x_ws by (cases rest) auto
      moreover have "last s = last (x # rest)" by (subst s_eq) simp
      ultimately show False using 1(4) by simp
    qed
    have r_hd: "\<not> isWhiteSpace (hd ?r)" using r_ne hd_dropWhile by blast
    have "last s = last (x # rest)" by (subst s_eq) simp
    also have "\<dots> = last rest" using r_ne by (cases rest) auto
    also have "\<dots> = last (takeWhile isWhiteSpace rest @ ?r)" by (simp only: takeWhile_dropWhile_id)
    also have "\<dots> = last ?r" using r_ne by (simp only: last_append if_False)
    finally have r_last: "\<not> isWhiteSpace (last ?r)" using 1(4) by simp
    show ?thesis
    proof (cases "t = takeWhile (\<lambda>c. \<not> isWhiteSpace c) s")
      case True
      then show ?thesis using tk by simp
    next
      case False
      then have "t \<in> set (split_ws ?r)" using 1(5) eq by simp
      then show ?thesis using 1(1) [OF Cons r_ne r_hd r_last] by blast
    qed
  qed
qed

lemma wordsOf_trimmed: assumes "trim s = s" shows "wordsOf s = (if s = [] then [] else split_ws s)"
proof (cases "s = []")
  case True
  then show ?thesis by (simp add: wordsOf_def split_ws_no_ws)
next
  case False
  have "\<forall>t\<in>set (split_ws s). t \<noteq> []"
    using split_ws_nonempty_tokens [OF False trim_fixed_hd [OF assms False] trim_fixed_last [OF assms False]]
    by blast
  then show ?thesis using False by (simp add: wordsOf_def)
qed

lemma filter_take_prefix: "prefix (filter P (take n xs)) (filter P xs)"
proof -
  have "filter P xs = filter P (take n xs) @ filter P (drop n xs)"
    by (metis append_take_drop_id filter_append)
  then show ?thesis by (simp add: prefix_def)
qed

lemma wordsOf_truncated:
  "wordsOf (truncatedContent content) = filter (\<lambda>t. t \<noteq> []) (take 3000 (split_ws content))"
  unfolding truncatedContent_def
  by (rule wordsOf_join) (meson in_set_takeD split_ws_tokens_no_ws)

text \<open>
  Claim C2. The prompt is the fixed template around the title and the truncated
  content; the truncated content is the first 3000 pieces of the split, joined by
  spaces; it holds at most 3000 words, and they are the leading words of the content.
  For extracted content, which is trimmed, they are exactly its first 3000 words.
\<close>

theorem prompt_embeds_at_most_3000_words:
  "buildPrompt ttl content = promptHead @ ttl @ promptMid @ truncatedContent content @ promptTail
   \<and> truncatedContent content = join '' '' (take 3000 (split_ws content))
   \<and> length (wordsOf (truncatedContent content)) \<le> 3000
   \<and> prefix (wordsOf (truncatedContent content)) (wordsOf content)
   \<and> (trim content = content \<longrightarrow>
        wordsOf (truncatedContent content) = take 3000 (wordsOf content))"
proof -
  have a: "length (wordsOf (truncatedContent content)) \<le> 3000"
  proof -
    have "length (filter (\<lambda>t. t \<noteq> []) (take 3000 (split_ws content)))
        \<le> length (take 3000 (split_ws content))" by (rule length_filter_le)
    then show ?thesis by (simp add: wordsOf_truncated)
  qed
  have b: "prefix (wordsOf (truncatedContent content)) (wordsOf content)"
    unfolding wordsOf_truncated by (simp add: wordsOf_def filter_take_prefix)
  have c: "wordsOf (truncatedContent content) = take 3000 (wordsOf content)"
    if t: "trim content = content"
  proof (cases "content = []")
    case True
    have "split_ws [] = [[]]" by (simp add: split_ws_no_ws)
    moreover have "wordsOf [] = []" by (simp add: wordsOf_def split_ws_no_ws)
    ultimately show ?thesis unfolding True by (simp add: wordsOf_truncated)
  next
    case False
    have ne: "\<forall>t\<in>set (split_ws content). t \<noteq> []"
      using split_ws_nonempty_tokens [OF False trim_fixed_hd [OF t False] trim_fixed_last [OF t False]]
      by blast
    then have "\<forall>t\<in>set (take 3000 (split_ws content)). t \<noteq> []" by (meson in_set_takeD)
    then have "filter (\<lambda>t. t \<noteq> []) (take 3000 (split_ws content)) = take 3000 (split_ws content)"
      by simp
    moreover have "wordsOf content = split_ws content" using ne by (simp add: wordsOf_def)
    ultimately show ?thesis by (simp add: wordsOf_truncated)
  qed
  show ?thesis using a b c by (simp add: buildPrompt_def truncatedContent_def)
qed


theorem prompt_embeds_at_most_3000_words_witness:
  "trim ''alpha beta  gamma'' = ''alpha beta  gamma''
   \<and> wordsOf (truncatedContent ''alpha beta  gamma'') = [''alpha'', ''beta'', ''gamma'']"
proof -
  have t: "trim ''alpha beta  gamma'' = ''alpha beta  gamma''"
    by (simp add: trim_def isWhiteSpace_def)
  have w: "wordsOf ''alpha beta  gamma'' = [''alpha'', ''beta'', ''gamma'']"
    by (simp add: wordsOf_def split_ws.simps isWhiteSpace_def)
  from prompt_embeds_at_most_3000_words [of "''Title''" "''alpha beta  gamma''"] t
  have "wordsOf (truncatedContent ''alpha beta  gamma'') = take 3000 (wordsOf ''alpha beta  gamma'')"
    by blast
  then show ?thesis using t w by simp
qed


section \<open>The normalizer and the summary object\<close>

lemma obj_get_obj_set: "obj_get (obj_set kvs k v) k' = (if k' = k then v else obj_get kvs k')"
  by (induction kvs) (auto simp: obj_get_def)

lemma split_ws_not_Nil: "split_ws s \<noteq> []"
  by (subst split_ws.simps) (simp split: list.splits)

lemma wordCount_pos: "0 < wordCount c"
  using split_ws_not_Nil [of c] by (simp add: wordCount_def)

lemma getPageContent_nonempty: "getPageContent pf tab = Some c \<Longrightarrow> c \<noteq> []"
  by (auto simp: getPageContent_def Let_def split: sum.splits if_splits)

lemma generate_of_dispatch:
  "fst (providerDispatch pf c ttl st) = Inr text \<Longrightarrow>
   fst (generateSummaryViaFetch pf c ttl st) = Inr (normalizeResponse (JSON_parse pf) text (wordCount c))"
  by (cases "providerDispatch pf c ttl st") (simp add: generateSummaryViaFetch_def)

lemma handler_success:
  assumes "getPageContent pf (tabId request) = Some pageContent"
    and "storage_get pf = Inr (Some (Current settings))"
    and "\<not> apiKeyMissing settings"
    and "fst (providerDispatch pf pageContent (title request) settings) = Inr text"
  shows "fst (handleSummarizePage pf request) =
     summaryObject pf request (normalizeResponse (JSON_parse pf) text (wordCount pageContent))"
proof -
  have ne: "pageContent \<noteq> []" using assms(1) by (rule getPageContent_nonempty)
  obtain calls where d: "providerDispatch pf pageContent (title request) settings = (Inr text, calls)"
    using assms(4) by (cases "providerDispatch pf pageContent (title request) settings") simp
  show ?thesis
    using assms(1-3) ne d by (simp add: handleSummarizePage_def generateSummaryViaFetch_def)
qed

lemma field_summaryObject:
  "field (summaryObject pf request sr) ''summary'' = obj_get sr ''summary''"
  "field (summaryObject pf request sr) ''sentiment'' = js_or (obj_get sr ''sentiment'') (JStr ''neutral'')"
  "field (summaryObject pf request sr) ''keyThemes'' = js_or (obj_get sr ''keyThemes'') (JArr [])"
  "field (summaryObject pf request sr) ''commentCount'' = js_or (obj_get sr ''wordCount'') (JNum 0)"
  "field (summaryObject pf request sr) ''success'' = JBool True"
  by (simp_all add: summaryObject_def field_def obj_get_def)

lemma example_content: "extractPageContent (documentOf examplePage) = ''Rain is expected.''"
  by (simp add: extractPageContent_def contentSources_def candidateText_def documentOf_def
      examplePage_def matches_def noise_def cleanContent_def trim_def isWhiteSpace_def)


lemma has_infix_prefix: "prefix ys xs \<Longrightarrow> has_infix ys xs"
  by (cases xs) simp_all

lemma has_infix_append: "has_infix ys (ps @ ys @ ss)"
proof (induction ps)
  case Nil
  show ?case by (simp add: has_infix_prefix)
next
  case (Cons p ps)
  then show ?case by simp
qed

lemma example_page_content [simp]:
  "getPageContent (exampleHost (Inr (documentOf examplePage)) key r known parsed) tab
     = Some ''Rain is expected.''"
  by (simp add: getPageContent_def exampleHost_def example_content)

lemma example_dispatch:
  "ok r \<Longrightarrow> json r = Inr (anthropicBody t) \<Longrightarrow>
   providerDispatch (exampleHost page key r known parsed) c ttl (exampleSettings key)
     = (Inr (JStr t), [buildRequest anthropic (providers (exampleSettings key) anthropic) (buildPrompt ttl c)])"
  by (simp add: providerDispatch_def exampleHost_def exampleSettings_def anthropicBody_def
      bindE_def obj_get_def)

lemma ok_okResponse [simp]: "ok (okResponse t)" "json (okResponse t) = Inr (anthropicBody t)"
  by (simp_all add: ok_def okResponse_def)

lemma example_storage [simp]:
  "storage_get (exampleHost page key r known parsed) = Inr (Some (Current (exampleSettings key)))"
  "JSON_parse (exampleHost page key r known parsed) (JStr known) = parsed"
  by (simp_all add: exampleHost_def)

lemma example_key [simp]: "apiKeyMissing (exampleSettings key) = (key = [])"
  by (simp add: apiKeyMissing_def exampleSettings_def)

text \<open>
  Claim C5. When the text of the model does not parse as JSON, the normalizer returns
  the fallback object: the raw text as the summary, the sentiment "neutral", an empty
  theme list (and the word count); the summary object that is sent carries the same
  three values.
\<close>

theorem unparseable_response_falls_back:
  assumes "getPageContent pf (tabId request) = Some pageContent"
    and "storage_get pf = Inr (Some (Current settings))"
    and "\<not> apiKeyMissing settings"
    and "fst (providerDispatch pf pageContent (title request) settings) = Inr (JStr text)"
    and "JSON_parse pf (JStr text) = None"
  shows "fst (generateSummaryViaFetch pf pageContent (title request) settings) =
           Inr [(''summary'', JStr text), (''sentiment'', JStr ''neutral''),
                (''keyThemes'', JArr []), (''wordCount'', JNum (of_nat (wordCount pageContent)))]
         \<and> field (fst (handleSummarizePage pf request)) ''summary'' = JStr text
         \<and> field (fst (handleSummarizePage pf request)) ''sentiment'' = JStr ''neutral''
         \<and> field (fst (handleSummarizePage pf request)) ''keyThemes'' = JArr []
         \<and> field (fst (handleSummarizePage pf request)) ''success'' = JBool True"
proof -
  have n: "normalizeResponse (JSON_parse pf) (JStr text) (wordCount pageContent) =
      [(''summary'', JStr text), (''sentiment'', JStr ''neutral''),
       (''keyThemes'', JArr []), (''wordCount'', JNum (of_nat (wordCount pageContent)))]"
    using assms(5) by (simp add: normalizeResponse_def)
  have g: "fst (generateSummaryViaFetch pf pageContent (title request) settings) =
      Inr (normalizeResponse (JSON_parse pf) (JStr text) (wordCount pageContent))"
    using assms(4) by (rule generate_of_dispatch)
  have h: "fst (handleSummarizePage pf request) =
      summaryObject pf request (normalizeResponse (JSON_parse pf) (JStr text) (wordCount pageContent))"
    using assms(1-4) by (rule handler_success)
  show ?thesis
    unfolding h g field_summaryObject unfolding n by (simp add: obj_get_def js_or_def)
qed

theorem unparseable_response_falls_back_witness:
  "JSON_parse (answeringHost plainText None) (JStr plainText) = None
   \<and> field (fst (handleSummarizePage (answeringHost plainText None) exampleRequest)) ''summary''
       = JStr ''Rain is expected tomorrow.''
   \<and> field (fst (handleSummarizePage (answeringHost plainText None) exampleRequest)) ''sentiment''
       = JStr ''neutral''
   \<and> field (fst (handleSummarizePage (answeringHost plainText None) exampleRequest)) ''keyThemes''
       = JArr []"
proof -
  let ?pf = "answeringHost plainText None"
  have 1: "getPageContent ?pf (tabId exampleRequest) = Some ''Rain is expected.''"
    by (simp add: answeringHost_def)
  have 2: "storage_get ?pf = Inr (Some (Current (exampleSettings ''sk-test'')))"
    by (simp add: answeringHost_def)
  have 3: "\<not> apiKeyMissing (exampleSettings ''sk-test'')" by simp
  have 4: "fst (providerDispatch ?pf ''Rain is expected.'' (title exampleRequest)
      (exampleSettings ''sk-test'')) = Inr (JStr plainText)"
    by (simp add: answeringHost_def example_dispatch)
  have 5: "JSON_parse ?pf (JStr plainText) = None" by (simp add: answeringHost_def)
  show ?thesis
    using unparseable_response_falls_back [OF 1 2 3 4 5] 5 by (simp add: plainText_def)
qed


lemma parsed_object_response:
  assumes "getPageContent pf (tabId request) = Some pageContent"
    and "storage_get pf = Inr (Some (Current settings))"
    and "\<not> apiKeyMissing settings"
    and "fst (providerDispatch pf pageContent (title request) settings) = Inr (JStr text)"
    and "JSON_parse pf (JStr text) = Some (JObj kvs)"
  shows "fst (generateSummaryViaFetch pf pageContent (title request) settings) =
           Inr (obj_set kvs ''wordCount'' (JNum (of_nat (wordCount pageContent))))"
    and "fst (handleSummarizePage pf request) =
           summaryObject pf request (obj_set kvs ''wordCount'' (JNum (of_nat (wordCount pageContent))))"
proof -
  have n: "normalizeResponse (JSON_parse pf) (JStr text) (wordCount pageContent) =
      obj_set kvs ''wordCount'' (JNum (of_nat (wordCount pageContent)))"
    using assms(5) by (simp add: normalizeResponse_def)
  show "fst (generateSummaryViaFetch pf pageContent (title request) settings) =
           Inr (obj_set kvs ''wordCount'' (JNum (of_nat (wordCount pageContent))))"
    using generate_of_dispatch [OF assms(4)] n by simp
  show "fst (handleSummarizePage pf request) =
           summaryObject pf request (obj_set kvs ''wordCount'' (JNum (of_nat (wordCount pageContent))))"
    using handler_success [OF assms(1-4)] n by simp
qed

text \<open>
  Claim C8. When the text parses to an object, whatever its fields, the object is
  merged as it is: every parsed property other than \<open>wordCount\<close> is in the merged
  result with its parsed value. The handler answers with success in every case; it
  sends the parsed summary (undefined if missing), the parsed sentiment unless it is
  missing or falsy, then "neutral", and the parsed themes unless they are missing or
  falsy, then the empty list. Nothing else depends on which fields are present or on
  their types.
\<close>

theorem parsed_fields_merged_without_validation:
  assumes "getPageContent pf (tabId request) = Some pageContent"
    and "storage_get pf = Inr (Some (Current settings))"
    and "\<not> apiKeyMissing settings"
    and "fst (providerDispatch pf pageContent (title request) settings) = Inr (JStr text)"
    and "JSON_parse pf (JStr text) = Some (JObj kvs)"
  shows "(\<exists>merged. fst (generateSummaryViaFetch pf pageContent (title request) settings) = Inr merged
            \<and> (\<forall>k. k \<noteq> ''wordCount'' \<longrightarrow> obj_get merged k = obj_get kvs k))
         \<and> field (fst (handleSummarizePage pf request)) ''success'' = JBool True
         \<and> field (fst (handleSummarizePage pf request)) ''summary'' = obj_get kvs ''summary''
         \<and> field (fst (handleSummarizePage pf request)) ''sentiment'' =
             (if truthy (obj_get kvs ''sentiment'') then obj_get kvs ''sentiment''
              else JStr ''neutral'')
         \<and> field (fst (handleSummarizePage pf request)) ''keyThemes'' =
             (if truthy (obj_get kvs ''keyThemes'') then obj_get kvs ''keyThemes'' else JArr [])
         \<and> (map_of kvs ''sentiment'' = None \<longrightarrow>
              field (fst (handleSummarizePage pf request)) ''sentiment'' = JStr ''neutral'')
         \<and> (map_of kvs ''keyThemes'' = None \<longrightarrow>
              field (fst (handleSummarizePage pf request)) ''keyThemes'' = JArr [])
         \<and> (map_of kvs ''summary'' = None \<longrightarrow>
              field (fst (handleSummarizePage pf request)) ''summary'' = JUndefined)"
proof -
  note r = parsed_object_response [OF assms]
  have a: "\<exists>merged. fst (generateSummaryViaFetch pf pageContent (title request) settings) = Inr merged
            \<and> (\<forall>k. k \<noteq> ''wordCount'' \<longrightarrow> obj_get merged k = obj_get kvs k)"
    unfolding r(1) by (simp add: obj_get_obj_set)
  have b: "field (fst (handleSummarizePage pf request)) ''success'' = JBool True"
    and c: "field (fst (handleSummarizePage pf request)) ''summary'' = obj_get kvs ''summary''"
    and d: "field (fst (handleSummarizePage pf request)) ''sentiment'' =
             (if truthy (obj_get kvs ''sentiment'') then obj_get kvs ''sentiment''
              else JStr ''neutral'')"
    and e: "field (fst (handleSummarizePage pf request)) ''keyThemes'' =
             (if truthy (obj_get kvs ''keyThemes'') then obj_get kvs ''keyThemes'' else JArr [])"
    unfolding r(2) field_summaryObject by (simp_all add: obj_get_obj_set js_or_def)
  have f: "map_of kvs k = None \<Longrightarrow> obj_get kvs k = JUndefined" for k
    by (simp add: obj_get_def)
  show ?thesis using a b c d e by (simp add: f)
qed

theorem parsed_fields_merged_without_validation_witness:
  "JSON_parse (answeringHost partialText (Some (JObj partialFields))) (JStr partialText)
     = Some (JObj partialFields)
   \<and> map_of partialFields ''sentiment'' = None
   \<and> map_of partialFields ''keyThemes'' = None
   \<and> field (fst (handleSummarizePage (answeringHost partialText (Some (JObj partialFields)))
        exampleRequest)) ''summary'' = JStr ''Rain.''
   \<and> field (fst (handleSummarizePage (answeringHost partialText (Some (JObj partialFields)))
        exampleRequest)) ''sentiment'' = JStr ''neutral''
   \<and> field (fst (handleSummarizePage (answeringHost partialText (Some (JObj partialFields)))
        exampleRequest)) ''keyThemes'' = JArr []
   \<and> field (fst (handleSummarizePage (answeringHost partialText (Some (JObj partialFields)))
        exampleRequest)) ''success'' = JBool True"
proof -
  let ?pf = "answeringHost partialText (Some (JObj partialFields))"
  have 1: "getPageContent ?pf (tabId exampleRequest) = Some ''Rain is expected.''"
    by (simp add: answeringHost_def)
  have 2: "storage_get ?pf = Inr (Some (Current (exampleSettings ''sk-test'')))"
    by (simp add: answeringHost_def)
  have 3: "\<not> apiKeyMissing (exampleSettings ''sk-test'')" by simp
  have 4: "fst (providerDispatch ?pf ''Rain is expected.'' (title exampleRequest)
      (exampleSettings ''sk-test'')) = Inr (JStr partialText)"
    by (simp add: answeringHost_def example_dispatch)
  have 5: "JSON_parse ?pf (JStr partialText) = Some (JObj partialFields)"
    by (simp add: answeringHost_def)
  show ?thesis
    using parsed_fields_merged_without_validation [OF 1 2 3 4 5] 5
    by (simp add: partialFields_def obj_get_def)
qed

text \<open>
  Claim C1, amended. When the text parses to an object with the three fields, the
  normalizer returns the three values unmodified. The summary object that is sent
  holds the summary unmodified, and the sentiment and the themes unmodified when they
  are truthy; a falsy sentiment is sent as "neutral" and falsy themes as the empty
  list.
\<close>

theorem complete_object_fields_kept_when_truthy:
  assumes "getPageContent pf (tabId request) = Some pageContent"
    and "storage_get pf = Inr (Some (Current settings))"
    and "\<not> apiKeyMissing settings"
    and "fst (providerDispatch pf pageContent (title request) settings) = Inr (JStr text)"
    and "JSON_parse pf (JStr text) = Some (JObj kvs)"
    and "map_of kvs ''summary'' = Some s"
    and "map_of kvs ''sentiment'' = Some st"
    and "map_of kvs ''keyThemes'' = Some kt"
  shows "(\<exists>result. fst (generateSummaryViaFetch pf pageContent (title request) settings) = Inr result
            \<and> obj_get result ''summary'' = s \<and> obj_get result ''sentiment'' = st
            \<and> obj_get result ''keyThemes'' = kt)
         \<and> field (fst (handleSummarizePage pf request)) ''summary'' = s
         \<and> field (fst (handleSummarizePage pf request)) ''sentiment'' =
              (if truthy st then st else JStr ''neutral'')
         \<and> field (fst (handleSummarizePage pf request)) ''keyThemes'' =
              (if truthy kt then kt else JArr [])"
proof -
  note r = parsed_object_response [OF assms(1-5)]
  have g: "obj_get kvs ''summary'' = s" "obj_get kvs ''sentiment'' = st"
    "obj_get kvs ''keyThemes'' = kt"
    using assms(6-8) by (simp_all add: obj_get_def)
  have a: "\<exists>result. fst (generateSummaryViaFetch pf pageContent (title request) settings) = Inr result
            \<and> obj_get result ''summary'' = s \<and> obj_get result ''sentiment'' = st
            \<and> obj_get result ''keyThemes'' = kt"
    unfolding r(1) by (simp add: obj_get_obj_set g)
  have b: "field (fst (handleSummarizePage pf request)) ''summary'' = s"
    and c: "field (fst (handleSummarizePage pf request)) ''sentiment'' =
              (if truthy st then st else JStr ''neutral'')"
    and d: "field (fst (handleSummarizePage pf request)) ''keyThemes'' =
              (if truthy kt then kt else JArr [])"
    unfolding r(2) field_summaryObject by (simp_all add: obj_get_obj_set js_or_def g)
  show ?thesis using a b c d by simp
qed

theorem complete_object_fields_kept_when_truthy_witness:
  "JSON_parse (answeringHost completeText (Some (JObj completeFields))) (JStr completeText)
     = Some (JObj completeFields)
   \<and> field (fst (handleSummarizePage (answeringHost completeText (Some (JObj completeFields)))
        exampleRequest)) ''summary'' = JStr ''Rain.''
   \<and> field (fst (handleSummarizePage (answeringHost completeText (Some (JObj completeFields)))
        exampleRequest)) ''sentiment'' = JStr ''negative''
   \<and> field (fst (handleSummarizePage (answeringHost completeText (Some (JObj completeFields)))
        exampleRequest)) ''keyThemes'' = JArr [JStr ''weather'']"
proof -
  let ?pf = "answeringHost completeText (Some (JObj completeFields))"
  have 1: "getPageContent ?pf (tabId exampleRequest) = Some ''Rain is expected.''"
    by (simp add: answeringHost_def)
  have 2: "storage_get ?pf = Inr (Some (Current (exampleSettings ''sk-test'')))"
    by (simp add: answeringHost_def)
  have 3: "\<not> apiKeyMissing (exampleSettings ''sk-test'')" by simp
  have 4: "fst (providerDispatch ?pf ''Rain is expected.'' (title exampleRequest)
      (exampleSettings ''sk-test'')) = Inr (JStr completeText)"
    by (simp add: answeringHost_def example_dispatch)
  have 5: "JSON_parse ?pf (JStr completeText) = Some (JObj completeFields)"
    by (simp add: answeringHost_def)
  have 6: "map_of completeFields ''summary'' = Some (JStr ''Rain.'')"
    and 7: "map_of completeFields ''sentiment'' = Some (JStr ''negative'')"
    and 8: "map_of completeFields ''keyThemes'' = Some (JArr [JStr ''weather''])"
    by (simp_all add: completeFields_def)
  show ?thesis
    using complete_object_fields_kept_when_truthy [OF 1 2 3 4 5 6 7 8] 5 by simp
qed

text \<open>
  An answer that is valid JSON with the three fields, the sentiment empty and the
  themes null: the summary object holds "neutral" and the empty list, not the parsed
  values.
\<close>

theorem falsy_fields_are_replaced:
  "JSON_parse (answeringHost falsyText (Some (JObj falsyFields))) (JStr falsyText)
     = Some (JObj falsyFields)
   \<and> map_of falsyFields ''summary'' = Some (JStr ''Rain.'')
   \<and> map_of falsyFields ''sentiment'' = Some (JStr [])
   \<and> map_of falsyFields ''keyThemes'' = Some JNull
   \<and> field (fst (handleSummarizePage (answeringHost falsyText (Some (JObj falsyFields)))
        exampleRequest)) ''sentiment'' = JStr ''neutral''
   \<and> field (fst (handleSummarizePage (answeringHost falsyText (Some (JObj falsyFields)))
        exampleRequest)) ''keyThemes'' = JArr []
   \<and> JStr ''neutral'' \<noteq> JStr []
   \<and> JArr [] \<noteq> JNull"
proof -
  let ?pf = "answeringHost falsyText (Some (JObj falsyFields))"
  have 1: "getPageContent ?pf (tabId exampleRequest) = Some ''Rain is expected.''"
    by (simp add: answeringHost_def)
  have 2: "storage_get ?pf = Inr (Some (Current (exampleSettings ''sk-test'')))"
    by (simp add: answeringHost_def)
  have 3: "\<not> apiKeyMissing (exampleSettings ''sk-test'')" by simp
  have 4: "fst (providerDispatch ?pf ''Rain is expected.'' (title exampleRequest)
      (exampleSettings ''sk-test'')) = Inr (JStr falsyText)"
    by (simp add: answeringHost_def example_dispatch)
  have 5: "JSON_parse ?pf (JStr falsyText) = Some (JObj falsyFields)"
    by (simp add: answeringHost_def)
  have h: "fst (handleSummarizePage ?pf exampleRequest) =
      summaryObject ?pf exampleRequest
        (obj_set falsyFields ''wordCount'' (JNum (of_nat (wordCount ''Rain is expected.''))))"
    by (rule parsed_object_response(2) [OF 1 2 3 4 5])
  have s: "field (fst (handleSummarizePage ?pf exampleRequest)) ''sentiment'' = JStr ''neutral''"
    and k: "field (fst (handleSummarizePage ?pf exampleRequest)) ''keyThemes'' = JArr []"
    unfolding h field_summaryObject by (simp_all add: falsyFields_def obj_get_def js_or_def)
  have m: "map_of falsyFields ''summary'' = Some (JStr ''Rain.'')"
    "map_of falsyFields ''sentiment'' = Some (JStr [])"
    "map_of falsyFields ''keyThemes'' = Some JNull"
    by (simp_all add: falsyFields_def)
  show ?thesis using 5 s k m by simp
qed


section \<open>Trimmed strings\<close>

lemma trim_fixed:
  assumes "s = [] \<or> (\<not> isWhiteSpace (hd s) \<and> \<not> isWhiteSpace (last s))"
  shows "trim s = s"
proof (cases "s = []")
  case True
  then show ?thesis by (simp add: trim_def)
next
  case False
  then have h: "\<not> isWhiteSpace (hd s)" and l: "\<not> isWhiteSpace (last s)" using assms by auto
  have d: "dropWhile isWhiteSpace s = s" using False h by (cases s) auto
  obtain x xs where r: "rev s = x # xs" using False by (cases "rev s") auto
  have "hd (rev s) = last s" using False by (simp add: hd_rev)
  then have "\<not> isWhiteSpace x" using l r by simp
  then have "dropWhile isWhiteSpace (rev s) = rev s" unfolding r by simp
  then show ?thesis by (simp add: trim_def d)
qed

lemma trim_idem: "trim (trim s) = trim s"
proof -
  let ?a = "dropWhile isWhiteSpace s"
  let ?r = "dropWhile isWhiteSpace (rev ?a)"
  have t: "trim s = rev ?r" by (simp add: trim_def)
  show ?thesis
  proof (cases "?r = []")
    case True
    then have e: "trim s = []" using t by simp
    show ?thesis unfolding e by (simp add: trim_def)
  next
    case False
    have a_ne: "?a \<noteq> []"
    proof
      assume e: "?a = []"
      have "?r = []" unfolding e by simp
      with False show False by blast
    qed
    have hr: "\<not> isWhiteSpace (hd ?r)" using False hd_dropWhile by blast
    have "rev ?a = takeWhile isWhiteSpace (rev ?a) @ ?r" by simp
    then have "last (rev ?a) = last ?r" using False by (metis last_appendR)
    then have "last ?r = hd ?a" using a_ne by (metis last_rev)
    moreover have "\<not> isWhiteSpace (hd ?a)" using a_ne hd_dropWhile by blast
    ultimately have lr: "\<not> isWhiteSpace (last ?r)" by simp
    have "\<not> isWhiteSpace (hd (rev ?r))" "\<not> isWhiteSpace (last (rev ?r))"
      using False hr lr by (metis hd_rev, metis last_rev)
    then show ?thesis unfolding t by (intro trim_fixed) simp
  qed
qed

section \<open>The word count\<close>

lemma dropWhile_join_tokens:
  assumes "ts \<noteq> []" "\<forall>t\<in>set ts. t \<noteq> [] \<and> (\<forall>c\<in>set t. \<not> isWhiteSpace c)"
  shows "dropWhile isWhiteSpace (join '' '' ts) = join '' '' ts"
proof -
  obtain t rest where ts: "ts = t # rest" using assms(1) by (cases ts) auto
  then obtain c cs where t: "t = c # cs" "\<not> isWhiteSpace c" using assms(2) by (cases t) auto
  have "\<exists>r. join '' '' ts = c # r" unfolding ts t by (cases rest) simp_all
  then show ?thesis using t(2) by auto
qed

lemma split_ws_join:
  "ts \<noteq> [] \<Longrightarrow> \<forall>t\<in>set ts. t \<noteq> [] \<and> (\<forall>c\<in>set t. \<not> isWhiteSpace c) \<Longrightarrow>
   split_ws (join '' '' ts) = ts"
proof (induction "'' ''" ts rule: join.induct)
  case 1
  then show ?case by simp
next
  case (2 t)
  then show ?case by (simp add: split_ws_no_ws)
next
  case (3 t u ts)
  have sp: "isWhiteSpace (CHR '' '')" by (simp add: isWhiteSpace_def)
  have "split_ws (t @ CHR '' '' # join '' '' (u # ts)) =
      t # split_ws (dropWhile isWhiteSpace (join '' '' (u # ts)))"
    using 3(3) sp by (intro split_ws_token) auto
  moreover have "dropWhile isWhiteSpace (join '' '' (u # ts)) = join '' '' (u # ts)"
    using 3(3) by (intro dropWhile_join_tokens) auto
  moreover have "split_ws (join '' '' (u # ts)) = u # ts" using 3 by simp
  ultimately show ?case by simp
qed

lemma wordCount_replicate: "0 < n \<Longrightarrow> wordCount (join '' '' (replicate n ''w'')) = n"
proof -
  assume "0 < n"
  then have "replicate n ''w'' \<noteq> []" by simp
  moreover have "\<forall>t\<in>set (replicate n ''w''). t \<noteq> [] \<and> (\<forall>c\<in>set t. \<not> isWhiteSpace c)"
    by (simp add: isWhiteSpace_def)
  ultimately have "split_ws (join '' '' (replicate n ''w'')) = replicate n ''w''"
    by (rule split_ws_join)
  then show ?thesis by (simp add: wordCount_def)
qed

lemma truncated_words_le: "length (wordsOf (truncatedContent c)) \<le> 3000"
proof -
  have "length (filter (\<lambda>t. t \<noteq> []) (take 3000 (split_ws c))) \<le> length (take 3000 (split_ws c))"
    by (rule length_filter_le)
  then show ?thesis by (simp add: wordsOf_truncated)
qed

lemma commentCount_of_result:
  "obj_get sr ''wordCount'' = JNum (of_nat (wordCount c)) \<Longrightarrow>
   field (summaryObject pf request sr) ''commentCount'' = JNum (of_nat (wordCount c))"
  using wordCount_pos [of c] by (simp add: field_summaryObject js_or_def)

lemma normalize_wordCount:
  "obj_get (normalizeResponse parse text wc) ''wordCount'' = JNum (of_nat wc)"
  by (simp add: normalizeResponse_def obj_get_obj_set split: option.splits) (simp add: obj_get_def)

text \<open>
  Claim C10. Whenever the handler reaches the normalizer, the \<open>commentCount\<close> of the
  summary object is the number of pieces of \<open>content.split(/\s+/)\<close> for the whole
  extracted content, which (the content being trimmed) is its number of words; nothing
  is cut before counting. Some content has more than 3000 pieces while its prompt
  embeds at most 3000 words.
\<close>

theorem comment_count_is_full_word_count:
  "(getPageContent pf (tabId request) = Some pageContent
      \<and> storage_get pf = Inr (Some (Current settings))
      \<and> \<not> apiKeyMissing settings
      \<and> fst (providerDispatch pf pageContent (title request) settings) = Inr text
    \<longrightarrow> field (fst (handleSummarizePage pf request)) ''commentCount''
          = JNum (of_nat (length (split_ws pageContent)))
        \<and> length (split_ws pageContent) = length (wordsOf pageContent))
   \<and> (\<exists>c. 3000 < length (split_ws c) \<and> length (wordsOf (truncatedContent c)) \<le> 3000)"
proof -
  have a: "field (fst (handleSummarizePage pf request)) ''commentCount''
          = JNum (of_nat (length (split_ws pageContent)))
        \<and> length (split_ws pageContent) = length (wordsOf pageContent)"
    if h: "getPageContent pf (tabId request) = Some pageContent"
      "storage_get pf = Inr (Some (Current settings))" "\<not> apiKeyMissing settings"
      "fst (providerDispatch pf pageContent (title request) settings) = Inr text"
  proof -
    have "field (fst (handleSummarizePage pf request)) ''commentCount''
        = JNum (of_nat (wordCount pageContent))"
      unfolding handler_success [OF h] by (rule commentCount_of_result) (rule normalize_wordCount)
    moreover have "trim pageContent = pageContent" "pageContent \<noteq> []"
      using h(1) by (auto simp: getPageContent_def Let_def extractPageContent_def cleanContent_def
          trim_idem split: sum.splits if_splits)
    then have "wordsOf pageContent = split_ws pageContent" by (simp add: wordsOf_trimmed)
    ultimately show ?thesis by (simp add: wordCount_def)
  qed
  have "3000 < length (split_ws (join '' '' (replicate 3001 ''w'')))"
    using wordCount_replicate [of 3001] by (simp add: wordCount_def)
  then have b: "\<exists>c. 3000 < length (split_ws c) \<and> length (wordsOf (truncatedContent c)) \<le> 3000"
    using truncated_words_le by blast
  show ?thesis using a b by blast
qed


theorem comment_count_is_full_word_count_witness:
  "getPageContent (answeringHost plainText None) (tabId exampleRequest) = Some ''Rain is expected.''
   \<and> field (fst (handleSummarizePage (answeringHost plainText None) exampleRequest)) ''commentCount''
       = JNum 3"
proof -
  let ?pf = "answeringHost plainText None"
  have 1: "getPageContent ?pf (tabId exampleRequest) = Some ''Rain is expected.''"
    by (simp add: answeringHost_def)
  have 2: "storage_get ?pf = Inr (Some (Current (exampleSettings ''sk-test'')))"
    by (simp add: answeringHost_def)
  have 3: "\<not> apiKeyMissing (exampleSettings ''sk-test'')" by simp
  have 4: "fst (providerDispatch ?pf ''Rain is expected.'' (title exampleRequest)
      (exampleSettings ''sk-test'')) = Inr (JStr plainText)"
    by (simp add: answeringHost_def example_dispatch)
  have w: "length (split_ws ''Rain is expected.'') = 3"
    by (simp add: split_ws.simps isWhiteSpace_def)
  from comment_count_is_full_word_count [of ?pf exampleRequest "''Rain is expected.''"
      "exampleSettings ''sk-test''" "JStr plainText"] 1 2 3 4
  have "field (fst (handleSummarizePage ?pf exampleRequest)) ''commentCount''
      = JNum (of_nat (length (split_ws ''Rain is expected.'')))"
    by blast
  then show ?thesis using 1 w by simp
qed

section \<open>Errors of the dispatcher and of the handler\<close>

text \<open>
  Claim C4. For each of the four providers, a response whose status is not a success
  status (not in 200 to 299, so every 4xx and 5xx) makes the dispatcher throw an error
  whose message is the provider's name, " API error: ", the status code in decimal, a
  space and the status text; the code and the text occur in the message, and
  \<open>fetch\<close> was called exactly once.
\<close>

theorem non_success_status_raises_provider_error:
  assumes "currentProvider settings = Some p"
    and "fetch pf (buildRequest p (providers settings p) (buildPrompt ttl c)) = Inr apiResponse"
    and "\<not> ok apiResponse"
  shows "generateSummaryViaFetch pf c ttl settings =
           (Inl (Error (providerName p @ '' API error: '' @ decimal (status apiResponse) @ '' ''
                          @ statusText apiResponse)),
            [buildRequest p (providers settings p) (buildPrompt ttl c)])
         \<and> has_infix (decimal (status apiResponse))
              (providerName p @ '' API error: '' @ decimal (status apiResponse) @ '' ''
                 @ statusText apiResponse)
         \<and> has_infix (statusText apiResponse)
              (providerName p @ '' API error: '' @ decimal (status apiResponse) @ '' ''
                 @ statusText apiResponse)"
proof -
  have d: "providerDispatch pf c ttl settings =
      (Inl (apiError p apiResponse), [buildRequest p (providers settings p) (buildPrompt ttl c)])"
    using assms by (simp add: providerDispatch_def)
  have g: "generateSummaryViaFetch pf c ttl settings =
           (Inl (Error (providerName p @ '' API error: '' @ decimal (status apiResponse) @ '' ''
                          @ statusText apiResponse)),
            [buildRequest p (providers settings p) (buildPrompt ttl c)])"
    by (simp add: generateSummaryViaFetch_def d apiError_def)
  have i1: "has_infix (decimal (status apiResponse))
      ((providerName p @ '' API error: '') @ decimal (status apiResponse) @ ('' '' @ statusText apiResponse))"
    by (rule has_infix_append)
  have i2: "has_infix (statusText apiResponse)
      ((providerName p @ '' API error: '' @ decimal (status apiResponse) @ '' '') @ statusText apiResponse @ [])"
    by (rule has_infix_append)
  show ?thesis using g i1 i2 by simp
qed

theorem non_success_status_raises_provider_error_witness:
  "\<not> ok notFound
   \<and> generateSummaryViaFetch failingHost ''Rain is expected.'' ''News'' (exampleSettings ''sk-test'')
       = (Inl (Error ''Anthropic API error: 404 Not Found''),
          [buildRequest anthropic (providers (exampleSettings ''sk-test'') anthropic)
             (buildPrompt ''News'' ''Rain is expected.'')])"
proof -
  have 1: "currentProvider (exampleSettings ''sk-test'') = Some anthropic"
    by (simp add: exampleSettings_def)
  have 2: "fetch failingHost (buildRequest anthropic (providers (exampleSettings ''sk-test'') anthropic)
      (buildPrompt ''News'' ''Rain is expected.'')) = Inr notFound"
    by (simp add: failingHost_def exampleHost_def)
  have 3: "\<not> ok notFound" by (simp add: ok_def notFound_def)
  have d: "decimal 404 = ''404''" by (simp add: decimal.simps digitChar_def)
  have s: "status notFound = 404" "statusText notFound = ''Not Found''"
    by (simp_all add: notFound_def)
  show ?thesis
    using non_success_status_raises_provider_error [OF 1 2 3] 3 by (simp add: s d)
qed

text \<open>
  Claim C3, amended. When the stored settings are absent, are of the old structure, or
  name a provider without an API key, the handler answers with a failure and never
  calls \<open>fetch\<close>. If page content was extracted and the stored settings are absent or
  hold a \<open>providers\<close> object, the message is "LLM settings not configured" or
  "API key not configured", each of which mentions the configuration. Nothing is
  said here about the message for a stored value of the old structure.
\<close>

theorem missing_api_key_never_dispatches:
  assumes "storage_get pf = Inr stored"
    and "\<forall>settings. stored = Some (Current settings) \<longrightarrow> apiKeyMissing settings"
  shows "snd (handleSummarizePage pf request) = []
         \<and> field (fst (handleSummarizePage pf request)) ''success'' = JBool False
         \<and> (getPageContent pf (tabId request) \<noteq> None
              \<and> (\<forall>s. stored = Some s \<longrightarrow> hasProvidersMap s) \<longrightarrow>
              fst (handleSummarizePage pf request) =
                failure (if stored = None then ''LLM settings not configured''
                         else ''API key not configured'')
              \<and> has_infix ''configured''
                   (if stored = None then ''LLM settings not configured''
                    else ''API key not configured''))"
proof (cases "getPageContent pf (tabId request)")
  case None
  then show ?thesis by (simp add: handleSummarizePage_def failure_def field_def obj_get_def)
next
  case content: (Some pageContent)
  then have ne: "pageContent \<noteq> []" by (rule getPageContent_nonempty)
  have i: "has_infix ''configured'' ''LLM settings not configured''"
    "has_infix ''configured'' ''API key not configured''"
    by simp_all
  show ?thesis
  proof (cases stored)
    case None
    then show ?thesis using content ne assms(1) i
      by (simp add: handleSummarizePage_def failure_def field_def obj_get_def)
  next
    case (Some s)
    show ?thesis
    proof (cases s)
      case (Current settings)
      then have "apiKeyMissing settings" using assms(2) Some by simp
      then show ?thesis using content ne assms(1) Some Current i
        by (simp add: handleSummarizePage_def failure_def field_def obj_get_def)
    next
      case (Legacy provider key mdl)
      then show ?thesis using content ne assms(1) Some
        by (simp add: handleSummarizePage_def failure_def field_def obj_get_def)
    qed
  qed
qed

theorem missing_api_key_never_dispatches_witness:
  "storage_get keylessHost = Inr (Some (Current (exampleSettings [])))
   \<and> apiKeyMissing (exampleSettings [])
   \<and> hasProvidersMap (Current (exampleSettings []))
   \<and> getPageContent keylessHost (tabId exampleRequest) \<noteq> None
   \<and> handleSummarizePage keylessHost exampleRequest = (failure ''API key not configured'', [])"
proof -
  have 1: "storage_get keylessHost = Inr (Some (Current (exampleSettings [])))"
    by (simp add: keylessHost_def)
  have 2: "\<forall>settings. Some (Current (exampleSettings [])) = Some (Current settings)
      \<longrightarrow> apiKeyMissing settings"
    by simp
  have 3: "getPageContent keylessHost (tabId exampleRequest) \<noteq> None"
    by (simp add: keylessHost_def)
  have 4: "apiKeyMissing (exampleSettings [])" by simp
  have 5: "\<forall>s. Some (Current (exampleSettings [])) = Some s \<longrightarrow> hasProvidersMap s"
    by auto
  from missing_api_key_never_dispatches [OF 1 2, of exampleRequest] 3 5
  have "snd (handleSummarizePage keylessHost exampleRequest) = []"
    and "fst (handleSummarizePage keylessHost exampleRequest) = failure ''API key not configured''"
    by simp_all
  then have "handleSummarizePage keylessHost exampleRequest = (failure ''API key not configured'', [])"
    by (simp add: prod_eq_iff)
  then show ?thesis using 1 3 4 by simp
qed

text \<open>
  Stored settings of the old structure with an empty key, on a page whose content is
  extracted: the handler answers with the message of the TypeError, without a call of
  \<open>fetch\<close>.
\<close>

lemma legacy_settings_answer_with_type_error:
  "storage_get legacyHost = Inr (Some (Legacy ''anthropic'' [] ''claude''))
   \<and> getPageContent legacyHost (tabId exampleRequest) = Some ''Rain is expected.''
   \<and> handleSummarizePage legacyHost exampleRequest
       = (failure (''Cannot read properties of undefined (reading '' @ [CHR 0x27]
                     @ ''undefined'' @ [CHR 0x27] @ '')''), [])"
proof -
  have c: "getPageContent legacyHost (tabId exampleRequest) = Some ''Rain is expected.''"
    by (simp add: legacyHost_def getPageContent_def exampleHost_def example_content)
  have s: "storage_get legacyHost = Inr (Some (Legacy ''anthropic'' [] ''claude''))"
    by (simp add: legacyHost_def)
  have "handleSummarizePage legacyHost exampleRequest
       = (failure (''Cannot read properties of undefined (reading '' @ [CHR 0x27]
                     @ ''undefined'' @ [CHR 0x27] @ '')''), [])"
    by (simp add: handleSummarizePage_def c s cannotRead_def)
  with c s show ?thesis by (intro conjI)
qed

text \<open>
  A tab that cannot be scripted, and settings without a key: the extraction is checked
  first, and the answer is the extraction message, which says nothing about the
  configuration.
\<close>

theorem failed_extraction_is_reported_first:
  "storage_get restrictedHost = Inr (Some (Current (exampleSettings [])))
   \<and> apiKeyMissing (exampleSettings [])
   \<and> handleSummarizePage restrictedHost exampleRequest
       = (failure ''Could not extract page content'', [])
   \<and> \<not> has_infix ''configur'' ''Could not extract page content''"
  by (simp add: restrictedHost_def handleSummarizePage_def getPageContent_def exampleHost_def)


section \<open>The extractor\<close>

lemma candidateTexts_Nil [simp]: "candidateTexts doc [] = []"
  by (simp add: candidateTexts_def)

lemma candidateTexts_Cons:
  "candidateTexts doc (sel # sels) =
     (case candidateText doc sel of Inr (Some t) \<Rightarrow> [trim t] | _ \<Rightarrow> []) @ candidateTexts doc sels"
  by (simp add: candidateTexts_def)

lemma extractLoop_spec:
  "extractLoop doc sels b0 = (best, tried) \<Longrightarrow> length b0 \<le> 500 \<Longrightarrow>
   prefix tried sels
   \<and> (best = b0 \<or> best \<in> set (candidateTexts doc tried))
   \<and> length b0 \<le> length best
   \<and> (\<forall>t\<in>set (candidateTexts doc tried). length t \<le> length best)
   \<and> (tried = sels \<or> 500 < length best)
   \<and> (\<forall>t\<in>set (candidateTexts doc (butlast tried)). length t \<le> 500)"
proof (induction sels arbitrary: b0 best tried)
  case Nil
  then show ?case by simp
next
  case (Cons sel sels)
  show ?case
  proof (cases "candidateText doc sel")
    case (Inl e)
    obtain b tr where r: "extractLoop doc sels b0 = (b, tr)" by (cases "extractLoop doc sels b0")
    from Cons.prems(1) Inl r have eq: "best = b" "tried = sel # tr" by simp_all
    note ih = Cons.IH [OF r Cons.prems(2)]
    have bl: "candidateTexts doc (butlast (sel # tr)) = candidateTexts doc (butlast tr)"
      using Inl by (cases tr) (simp_all add: candidateTexts_Cons)
    show ?thesis unfolding eq bl using ih Inl by (simp add: candidateTexts_Cons)
  next
    case (Inr found)
    show ?thesis
    proof (cases found)
      case None
      obtain b tr where r: "extractLoop doc sels b0 = (b, tr)" by (cases "extractLoop doc sels b0")
      from Cons.prems(1) Inr None r have eq: "best = b" "tried = sel # tr" by simp_all
      note ih = Cons.IH [OF r Cons.prems(2)]
      have bl: "candidateTexts doc (butlast (sel # tr)) = candidateTexts doc (butlast tr)"
        using Inr None by (cases tr) (simp_all add: candidateTexts_Cons)
      show ?thesis unfolding eq bl using ih Inr None by (simp add: candidateTexts_Cons)
    next
      case (Some t)
      define b1 where "b1 = (if length b0 < length (trim t) then trim t else b0)"
      have c: "candidateTexts doc (sel # xs) = trim t # candidateTexts doc xs" for xs
        using Inr Some by (simp add: candidateTexts_Cons)
      have b1_ge: "length b0 \<le> length b1" "length (trim t) \<le> length b1"
        and b1_in: "b1 = b0 \<or> b1 = trim t"
        by (auto simp: b1_def)
      show ?thesis
      proof (cases "500 < length b1")
        case True
        with Cons.prems(1) Inr Some have eq: "best = b1" "tried = [sel]"
          by (simp_all add: b1_def Let_def)
        show ?thesis unfolding eq using True b1_ge b1_in by (auto simp: c)
      next
        case False
        obtain b tr where r: "extractLoop doc sels b1 = (b, tr)" by (cases "extractLoop doc sels b1")
        from Cons.prems(1) Inr Some False r have eq: "best = b" "tried = sel # tr"
          by (simp_all add: b1_def Let_def)
        have le: "length b1 \<le> 500" using False by simp
        note ih = Cons.IH [OF r le]
        have bl: "set (candidateTexts doc (butlast (sel # tr))) \<subseteq>
            insert (trim t) (set (candidateTexts doc (butlast tr)))"
          by (cases tr) (simp_all add: c)
        have t500: "length (trim t) \<le> 500" using b1_ge(2) le by simp
        have p1: "prefix (sel # tr) (sel # sels)" using ih by simp
        have p2: "b = b0 \<or> b \<in> set (candidateTexts doc (sel # tr))"
          using ih b1_in by (auto simp: c)
        have p3: "length b0 \<le> length b" using ih b1_ge(1) by simp
        have p4: "\<forall>u\<in>set (candidateTexts doc (sel # tr)). length u \<le> length b"
          using ih b1_ge(2) by (auto simp: c)
        have p5: "sel # tr = sel # sels \<or> 500 < length b" using ih by simp
        have p6: "\<forall>u\<in>set (candidateTexts doc (butlast (sel # tr))). length u \<le> 500"
          using ih t500 bl by auto
        show ?thesis unfolding eq using p1 p2 p3 p4 p5 p6 by blast
      qed
    qed
  qed
qed


lemma replace_ws_runs_chars:
  "c \<in> set (replace_ws_runs s) \<Longrightarrow> c = CHR '' '' \<or> \<not> isWhiteSpace c"
  by (induction s rule: replace_ws_runs.induct) (auto split: if_splits)

lemma replace_newline_runs_id: "LF \<notin> set s \<Longrightarrow> replace_newline_runs s = s"
  by (induction s) auto

lemma no_newline_after_replace: "replace_newline_runs (replace_ws_runs s) = replace_ws_runs s"
proof (rule replace_newline_runs_id)
  show "LF \<notin> set (replace_ws_runs s)"
  proof
    assume "LF \<in> set (replace_ws_runs s)"
    then have "LF = CHR '' '' \<or> \<not> isWhiteSpace LF" by (rule replace_ws_runs_chars)
    then show False by (simp add: isWhiteSpace_def)
  qed
qed

lemma replace_ws_runs_Nil_iff: "replace_ws_runs s = [] \<longleftrightarrow> s = []"
  by (cases s) auto

lemma replace_ws_runs_hd:
  "s \<noteq> [] \<Longrightarrow> \<not> isWhiteSpace (hd s) \<Longrightarrow> hd (replace_ws_runs s) = hd s"
  by (cases s) auto

lemma replace_ws_runs_last:
  "s \<noteq> [] \<Longrightarrow> \<not> isWhiteSpace (last s) \<Longrightarrow> last (replace_ws_runs s) = last s"
proof (induction s rule: replace_ws_runs.induct)
  case 1
  then show ?case by simp
next
  case (2 c cs)
  show ?case
  proof (cases "isWhiteSpace c")
    case True
    let ?r = "dropWhile isWhiteSpace cs"
    have cs_ne: "cs \<noteq> []" using 2(4) True by (cases cs) auto
    then have lcs: "last (c # cs) = last cs" by simp
    have r_ne: "?r \<noteq> []"
    proof
      assume e: "?r = []"
      then have "\<forall>x\<in>set cs. isWhiteSpace x" by simp
      then have "isWhiteSpace (last cs)" using cs_ne last_in_set by blast
      then show False using 2(4) lcs by simp
    qed
    have "cs = takeWhile isWhiteSpace cs @ ?r" by simp
    then have lr: "last cs = last ?r" using r_ne by (metis last_appendR)
    have "last (replace_ws_runs ?r) = last ?r"
      using 2(1) [OF True r_ne] 2(4) lcs lr by simp
    moreover have "replace_ws_runs ?r \<noteq> []" using r_ne by (simp add: replace_ws_runs_Nil_iff)
    ultimately show ?thesis using True lcs lr by simp
  next
    case False
    show ?thesis
    proof (cases "cs = []")
      case True
      then show ?thesis using False by simp
    next
      case ne: False
      then have "last (replace_ws_runs cs) = last cs" using 2(2) [OF False] 2(4) by simp
      then show ?thesis using False ne by (simp add: replace_ws_runs_Nil_iff)
    qed
  qed
qed

lemma cleanContent_trimmed: assumes "trim s = s" shows "cleanContent s = replace_ws_runs s"
proof (cases "s = []")
  case True
  then show ?thesis by (simp add: cleanContent_def trim_def)
next
  case False
  have h: "\<not> isWhiteSpace (hd s)" and l: "\<not> isWhiteSpace (last s)"
    using trim_fixed_hd [OF assms False] trim_fixed_last [OF assms False] by simp_all
  have "replace_ws_runs s \<noteq> []" using False by (simp add: replace_ws_runs_Nil_iff)
  moreover have "\<not> isWhiteSpace (hd (replace_ws_runs s))"
    using replace_ws_runs_hd [OF False h] h by simp
  moreover have "\<not> isWhiteSpace (last (replace_ws_runs s))"
    using replace_ws_runs_last [OF False l] l by simp
  ultimately have "trim (replace_ws_runs s) = replace_ws_runs s" by (intro trim_fixed) simp
  then show ?thesis by (simp add: cleanContent_def no_newline_after_replace)
qed

lemma candidateTexts_trimmed: "t \<in> set (candidateTexts doc sels) \<Longrightarrow> trim t = t"
  by (auto simp: candidateTexts_def trim_idem split: sum.splits option.splits)

lemma candidateTexts_member:
  "sel \<in> set sels \<Longrightarrow> candidateText doc sel = Inr (Some t) \<Longrightarrow>
   trim t \<in> set (candidateTexts doc sels)"
  by (force simp: candidateTexts_def)

lemma candidateTexts_blank:
  "\<forall>sel\<in>set sels. \<not> yieldsText doc sel \<Longrightarrow> t \<in> set (candidateTexts doc sels) \<Longrightarrow> t = []"
  by (induction sels) (auto simp: candidateTexts_Cons yieldsText_def split: sum.splits option.splits)

lemma extractPageContent_best:
  "extractPageContent doc = replace_ws_runs (fst (extractLoop doc contentSources []))"
proof -
  obtain best tried where e: "extractLoop doc contentSources [] = (best, tried)"
    by (cases "extractLoop doc contentSources []")
  have "best = [] \<or> best \<in> set (candidateTexts doc tried)"
    using extractLoop_spec [OF e] by simp
  then have "trim best = best" by (auto simp: trim_def dest: candidateTexts_trimmed)
  then show ?thesis by (simp add: extractPageContent_def e cleanContent_trimmed)
qed

text \<open>
  Claim C7. The selectors that are queried are a leading part of the fixed list, in its
  order. The kept text is empty or one of the candidate texts of the queried selectors,
  and none of these is longer: it is the longest seen. The loop ends only when the list
  is exhausted or the kept text is longer than 500 characters, and no candidate before
  the last queried selector was longer than 500: it stops as soon as the threshold is
  exceeded. The returned text is the kept text with every run of whitespace replaced
  by one space.
\<close>

theorem extractor_keeps_longest_until_threshold:
  "prefix (snd (extractLoop doc contentSources [])) contentSources
   \<and> (fst (extractLoop doc contentSources []) = []
        \<or> fst (extractLoop doc contentSources [])
            \<in> set (candidateTexts doc (snd (extractLoop doc contentSources []))))
   \<and> (\<forall>t\<in>set (candidateTexts doc (snd (extractLoop doc contentSources []))).
         length t \<le> length (fst (extractLoop doc contentSources [])))
   \<and> (snd (extractLoop doc contentSources []) = contentSources
        \<or> 500 < length (fst (extractLoop doc contentSources [])))
   \<and> (\<forall>t\<in>set (candidateTexts doc (butlast (snd (extractLoop doc contentSources [])))).
         length t \<le> 500)
   \<and> extractPageContent doc = replace_ws_runs (fst (extractLoop doc contentSources []))"
proof -
  obtain best tried where e: "extractLoop doc contentSources [] = (best, tried)"
    by (cases "extractLoop doc contentSources []")
  show ?thesis
    using extractLoop_spec [OF e] extractPageContent_best [of doc] by (simp add: e)
qed

theorem extractor_keeps_longest_until_threshold_witness:
  "extractLoop (documentOf longPage) contentSources []
     = (replicate 501 (CHR ''a''), [[Tag ''main'']])
   \<and> candidateTexts (documentOf longPage) [[Tag ''main'']] = [replicate 501 (CHR ''a'')]
   \<and> extractPageContent (documentOf longPage) = replace_ws_runs (replicate 501 (CHR ''a''))"
proof -
  have c: "candidateText (documentOf longPage) [Tag ''main''] = Inr (Some (replicate 501 (CHR ''a'')))"
    by (simp add: candidateText_def documentOf_def longPage_def matches_def noise_def)
  have t: "trim (replicate 501 (CHR ''a'')) = replicate 501 (CHR ''a'')"
    by (simp add: trim_def isWhiteSpace_def)
  have e: "extractLoop (documentOf longPage) contentSources []
     = (replicate 501 (CHR ''a''), [[Tag ''main'']])"
    by (simp add: contentSources_def c t)
  have k: "candidateTexts (documentOf longPage) [[Tag ''main'']] = [replicate 501 (CHR ''a'')]"
    by (simp add: candidateTexts_def c t)
  show ?thesis
    using extractor_keeps_longest_until_threshold [of "documentOf longPage"] k
    unfolding e by simp
qed

text \<open>
  Claim C6. The extractor gives a string for every document, also for one whose
  queries throw: a throwing query is caught and the loop goes on. The string is empty
  exactly when no selector yields any text, that is, when each query throws, finds
  nothing, or finds an element whose stripped text is blank.
\<close>

theorem extractor_empty_exactly_on_total_failure:
  "extractPageContent doc = [] \<longleftrightarrow> (\<forall>sel\<in>set contentSources. \<not> yieldsText doc sel)"
proof -
  obtain best tried where e: "extractLoop doc contentSources [] = (best, tried)"
    by (cases "extractLoop doc contentSources []")
  note sp = extractLoop_spec [OF e]
  have r: "extractPageContent doc = [] \<longleftrightarrow> best = []"
    by (simp add: extractPageContent_best e replace_ws_runs_Nil_iff)
  show ?thesis
  proof
    assume "extractPageContent doc = []"
    then have b: "best = []" using r by simp
    then have tr: "tried = contentSources" using sp by simp
    show "\<forall>sel\<in>set contentSources. \<not> yieldsText doc sel"
    proof
      fix sel assume m: "sel \<in> set contentSources"
      show "\<not> yieldsText doc sel"
      proof
        assume "yieldsText doc sel"
        then obtain t where t: "candidateText doc sel = Inr (Some t)" "trim t \<noteq> []"
          by (auto simp: yieldsText_def split: sum.splits option.splits)
        have "trim t \<in> set (candidateTexts doc tried)"
          unfolding tr using m t(1) by (rule candidateTexts_member)
        then have "length (trim t) \<le> length best" using sp by simp
        then show False using b t(2) by simp
      qed
    qed
  next
    assume a: "\<forall>sel\<in>set contentSources. \<not> yieldsText doc sel"
    have "set tried \<subseteq> set contentSources" using sp by (auto dest: set_mono_prefix)
    then have "\<forall>sel\<in>set tried. \<not> yieldsText doc sel" using a by blast
    then have "\<forall>t\<in>set (candidateTexts doc tried). t = []" using candidateTexts_blank by blast
    then have "best = []" using sp by auto
    then show "extractPageContent doc = []" using r by simp
  qed
qed

theorem extractor_empty_exactly_on_total_failure_witness:
  "filter (yieldsText throwingDocument) contentSources = []
   \<and> extractPageContent throwingDocument = []"
proof -
  have h: "\<forall>sel\<in>set contentSources. \<not> yieldsText throwingDocument sel"
    by (simp add: yieldsText_def candidateText_def throwingDocument_def)
  then have "extractPageContent throwingDocument = []"
    using extractor_empty_exactly_on_total_failure [of throwingDocument] by simp
  moreover have "filter (yieldsText throwingDocument) contentSources = []"
    using h by (simp add: filter_empty_conv)
  ultimately show ?thesis by (intro conjI)
qed


section \<open>A page with navigation and footer only\<close>

lemma extractLoop_skip:
  "candidateText doc sel = Inr None \<Longrightarrow>
   fst (extractLoop doc (sel # sels) b) = fst (extractLoop doc sels b)"
  by (simp add: split_beta)

lemma extractLoop_last:
  "candidateText doc sel = Inr (Some t) \<Longrightarrow> fst (extractLoop doc [sel] []) = trim t"
  by (cases "trim t = []") (simp_all add: Let_def)

lemma noise_matches_nav_footer:
  "tag = ''nav'' \<or> tag = ''footer'' \<Longrightarrow> matches noise (Element tag attrs kids)"
  by (auto simp: matches_def noise_def)

lemma stripped_body_blank:
  assumes "\<forall>k\<in>set kids. navOrFooter k"
    and "c \<in> set (textContent (removeNoise (Element tag attrs kids)))"
  shows "isWhiteSpace c"
proof -
  from assms(2) obtain k where k: "k \<in> set kids" "\<not> matches noise k"
    and c: "c \<in> set (textContent (removeNoise k))"
    by auto
  have nf: "navOrFooter k" using assms(1) k(1) by simp
  show ?thesis
  proof (cases k)
    case (Text s)
    then show ?thesis using nf c by simp
  next
    case (Comment s)
    then show ?thesis using c by simp
  next
    case (Element t a ks)
    then have "matches noise k" using nf by (simp add: noise_matches_nav_footer)
    then show ?thesis using k(2) by simp
  qed
qed

lemma trim_blank: assumes "\<forall>c\<in>set s. isWhiteSpace c" shows "trim s = []"
proof -
  have e: "dropWhile isWhiteSpace s = []" using assms by simp
  show ?thesis unfolding trim_def e by simp
qed

text \<open>
  Claim C9. In a document without main content (no element matches one of the eight
  selectors before \<open>body\<close>) whose body holds only navigation and footer elements,
  the extractor returns the cleaned text of the body after noise stripping; that text
  is shorter than 500 characters, in fact empty.
\<close>

theorem nav_and_footer_only_falls_back_to_body:
  assumes "\<forall>sel\<in>set (butlast contentSources). find (matches sel) (elements html) = None"
    and "find (matches [Tag ''body'']) (elements html) = Some (Element ''body'' attrs kids)"
    and "\<forall>k\<in>set kids. navOrFooter k"
  shows "extractPageContent (documentOf html) =
           cleanContent (trim (textContent (removeNoise (Element ''body'' attrs kids))))
         \<and> length (extractPageContent (documentOf html)) < 500
         \<and> extractPageContent (documentOf html) = []"
proof -
  let ?T = "textContent (removeNoise (Element ''body'' attrs kids))"
  have c8: "candidateText (documentOf html) sel = Inr None"
    if "sel \<in> set (butlast contentSources)" for sel
    using that assms(1) by (simp add: candidateText_def documentOf_def)
  have n: "candidateText (documentOf html) [Tag ''main''] = Inr None"
    "candidateText (documentOf html) [AttrEq ''role'' ''main''] = Inr None"
    "candidateText (documentOf html) [Tag ''article''] = Inr None"
    "candidateText (documentOf html) [Class ''content''] = Inr None"
    "candidateText (documentOf html) [Id ''content''] = Inr None"
    "candidateText (documentOf html) [Class ''post-content''] = Inr None"
    "candidateText (documentOf html) [Class ''entry-content''] = Inr None"
    "candidateText (documentOf html) [Class ''article-content''] = Inr None"
    by (rule c8, simp add: contentSources_def)+
  have c9: "candidateText (documentOf html) [Tag ''body''] = Inr (Some ?T)"
    using assms(2) by (simp add: candidateText_def documentOf_def del: removeNoise.simps textContent.simps)
  have "fst (extractLoop (documentOf html) contentSources []) =
      fst (extractLoop (documentOf html) [[Tag ''body'']] [])"
    unfolding contentSources_def by (simp only: extractLoop_skip n)
  also have "\<dots> = trim ?T" using c9 by (rule extractLoop_last)
  finally have a: "extractPageContent (documentOf html) = cleanContent (trim ?T)"
    by (simp only: extractPageContent_def)
  have tb: "trim ?T = []"
    using stripped_body_blank [OF assms(3)] by (intro trim_blank) blast
  have cc: "cleanContent [] = []" by (simp add: cleanContent_def trim_def)
  have b: "extractPageContent (documentOf html) = []" by (simp only: a tb cc)
  have l: "length (extractPageContent (documentOf html)) < 500" by (simp only: b) simp
  show ?thesis using a b l by (intro conjI)
qed

theorem nav_and_footer_only_falls_back_to_body_witness:
  "map (\<lambda>sel. find (matches sel) (elements navFooterPage)) (butlast contentSources)
     = [None, None, None, None, None, None, None, None]
   \<and> extractPageContent (documentOf navFooterPage) = []"
proof -
  let ?kids = "[Element ''nav'' [] [Element ''a'' [(''href'', ''/'')] [Text ''Home'']],
           Text [LF], Element ''footer'' [] [Text ''All rights reserved'']]"
  have 1: "\<forall>sel\<in>set (butlast contentSources). find (matches sel) (elements navFooterPage) = None"
    by (simp add: contentSources_def navFooterPage_def matches_def)
  have 2: "find (matches [Tag ''body'']) (elements navFooterPage) = Some (Element ''body'' [] ?kids)"
    by (simp add: navFooterPage_def matches_def)
  have 3: "\<forall>k\<in>set ?kids. navOrFooter k" by (simp add: isWhiteSpace_def)
  have "extractPageContent (documentOf navFooterPage) = []"
    using nav_and_footer_only_falls_back_to_body [OF 1 2 3] by (elim conjE)
  moreover have "map (\<lambda>sel. find (matches sel) (elements navFooterPage)) (butlast contentSources)
     = [None, None, None, None, None, None, None, None]"
    by (simp add: contentSources_def navFooterPage_def matches_def)
  ultimately show ?thesis by (intro conjI)
qed


end
